theory Spec2Isabelle
  imports Complex_Main
begin

section \<open>Hyperparameter search driver of the deep-learning survival model\<close>

text \<open>
  The repository is one notebook, \<^verbatim>\<open>demo/demo_hypersearchDL.ipynb\<close>, whose only code
  of its own is the function \<^verbatim>\<open>hypersearch_DL\<close> with its inner closure
  \<^verbatim>\<open>modelrun\<close>. Everything else is called: the training routine
  \<^verbatim>\<open>DL_single_run\<close> (file \<^verbatim>\<open>code/trainDL.py\<close>), the Keras model's
  \<^verbatim>\<open>predict\<close>, \<^verbatim>\<open>lifelines.utils.concordance_index\<close>,
  \<^verbatim>\<open>optunity.cross_validated\<close> and \<^verbatim>\<open>optunity.maximize\<close>.

  The two functions of the notebook are embedded from their source text. The training
  routine, the model, the metric, the fold splitting and the solvers are parameters of
  the embedding, gathered in the record \<open>libs\<close>; the cross-validation decorator and the
  maximize routine, which the source only calls, are modelled from the specification
  around them. A Python float is kept as the real number it denotes: the two powers the
  closure computes and the number it prints are rounded as floats are, the scores and
  averages of the called libraries are taken as they come. Numpy arrays are lists, a
  raised exception is the left summand of a result, and every call to the training
  routine, the model or the metric and every \<^verbatim>\<open>print\<close> is an event appended to a
  trace.
\<close>

subsection \<open>Data\<close>

datatype error =
    IndexError
  | TypeError
  | ValueError
  | ZeroDivisionError
  | OverflowError
  | AssertionError
  | LibraryError string

text \<open>A two-dimensional numpy array: its number of columns and its rows.\<close>

record matrix =
  ncols :: nat
  rows :: "real list list"

text \<open>The keyword arguments of \<^verbatim>\<open>DL_single_run\<close>, under their keywords.\<close>

record train_args =
  xtr :: matrix
  ytr :: matrix
  units1 :: real
  units2 :: real
  dro :: real
  lr :: real
  l1r :: real
  alpha :: real
  batchsize :: int
  numepochs :: int

text \<open>
  A hyperparameter set is a Python dict from names to floats, the box handed to the
  optimizer a dict from names to \<^verbatim>\<open>[low, high]\<close>; both are association lists in
  keyword order. A range is kept as the pair of its two entries.
\<close>

type_synonym pars = "(string \<times> real) list"
type_synonym range = "real \<times> real"
type_synonym box = "(string \<times> range) list"

text \<open>
  The observable effects of a run, in the order they happen. \<open>'m\<close> is the type of the
  object \<^verbatim>\<open>DL_single_run\<close> returns (the log holding the trained model). \<open>FileWrite\<close> is
  a write of some content to a file, named by its path.
\<close>

datatype 'm event =
    Train train_args
  | Predict 'm matrix int
  | Concordance "real list" "real list" "real list"
  | Print string
  | FileWrite string string

type_synonym ('m, 'a) res = "(error + 'a) \<times> 'm event list"

record searchlog =
  optimum :: real
  call_log :: "(pars \<times> real) list"

text \<open>One cross-validation fold: \<^verbatim>\<open>(x_train, y_train, x_test, y_test)\<close>.\<close>

type_synonym fold = "matrix \<times> matrix \<times> matrix \<times> matrix"

text \<open>
  The collaborators. \<open>'s\<close> is the type of the solver description that
  \<^verbatim>\<open>optunity.maximize\<close> returns as its third value.
  \<^item> \<open>DL_single_run\<close>: the training routine of \<^verbatim>\<open>trainDL.py\<close>;
  \<^item> \<open>predict\<close>: \<^verbatim>\<open>cv_log.model.predict(x, batch_size=b)\<close>, a list of output arrays;
  \<^item> \<open>concordance_index\<close>: \<^verbatim>\<open>lifelines.utils.concordance_index\<close>;
  \<^item> \<open>split_folds\<close>: the fold-splitting strategy of \<^verbatim>\<open>optunity.cross_validated\<close>;
  \<^item> \<open>suggest_solver\<close>, \<open>propose\<close>: the solver chosen by method name and the
    candidate it proposes next, given the evaluations so far;
  \<^item> \<open>str\<close>: Python's \<^verbatim>\<open>str\<close> on the dict of optimal hyperparameters.
\<close>

record ('m, 's) libs =
  DL_single_run :: "train_args \<Rightarrow> error + 'm"
  predict :: "'m \<Rightarrow> matrix \<Rightarrow> int \<Rightarrow> error + real list list"
  concordance_index :: "real list \<Rightarrow> real list \<Rightarrow> real list \<Rightarrow> error + real"
  split_folds :: "matrix \<Rightarrow> matrix \<Rightarrow> int \<Rightarrow> error + fold list"
  suggest_solver :: "int \<Rightarrow> string \<Rightarrow> box \<Rightarrow> error + 's"
  propose :: "'s \<Rightarrow> (pars \<times> real) list \<Rightarrow> pars"
  str :: "pars \<Rightarrow> string"

subsection \<open>Results with a trace\<close>

definition ret :: "'a \<Rightarrow> ('m, 'a) res" where
  "ret a = (Inr a, [])"

definition raise :: "error \<Rightarrow> ('m, 'a) res" where
  "raise e = (Inl e, [])"

definition lift :: "error + 'a \<Rightarrow> ('m, 'a) res" where
  "lift r = (r, [])"

text \<open>A call to a collaborator: the event is recorded, then the call returns or raises.\<close>

definition call :: "'m event \<Rightarrow> error + 'a \<Rightarrow> ('m, 'a) res" where
  "call ev r = (r, [ev])"

text \<open>Sequencing: an exception ends the run and keeps the trace so far.\<close>

definition bind_res :: "('m, 'a) res \<Rightarrow> ('a \<Rightarrow> ('m, 'b) res) \<Rightarrow> ('m, 'b) res" where
  "bind_res m f =
     (case fst m of
        Inl e \<Rightarrow> (Inl e, snd m)
      | Inr a \<Rightarrow> apsnd ((@) (snd m)) (f a))"

subsection \<open>Array indexing\<close>

text \<open>\<^verbatim>\<open>y[:, j]\<close>: column \<open>j\<close> of a two-dimensional array, IndexError out of range.\<close>

definition column :: "nat \<Rightarrow> matrix \<Rightarrow> error + real list" where
  "column j m =
     (if j < ncols m then Inr (map (\<lambda>r. r ! j) (rows m)) else Inl IndexError)"

text \<open>\<^verbatim>\<open>xs[i]\<close> for a non-negative index on a list, IndexError out of range.\<close>

definition item :: "'a list \<Rightarrow> nat \<Rightarrow> error + 'a" where
  "item xs i = (if i < length xs then Inr (xs ! i) else Inl IndexError)"

subsection \<open>Floats\<close>

text \<open>
  A Python float is a binary64 number, kept here as the real number it denotes. Where
  the source computes with floats, the exact result is rounded to the nearest binary64
  number, a tie to the one with an even significand: \<open>double_quantum y\<close> is the spacing
  of the binary64 numbers around \<open>y\<close> (53 significant bits, exponent at least \<open>-1022\<close>,
  so subnormal numbers are spaced \<open>2 powr -1074\<close> apart and a small result rounds to
  zero).
\<close>

definition round_half_even :: "real \<Rightarrow> int" where
  "round_half_even v =
     (let f = \<lfloor>v\<rfloor>; d = v - of_int f
      in if d < 1 / 2 then f else if 1 / 2 < d then f + 1 else if even f then f else f + 1)"

definition double_quantum :: "real \<Rightarrow> real" where
  "double_quantum y = 2 powr (of_int (max (- 1022) \<lfloor>log 2 \<bar>y\<bar>\<rfloor>) - 52)"

definition round_double :: "real \<Rightarrow> real" where
  "round_double y =
     (if y = 0 then 0
      else of_int (round_half_even (y / double_quantum y)) * double_quantum y)"

text \<open>A real number is a finite float when it is below the overflow threshold.\<close>

definition finite_float :: "real \<Rightarrow> bool" where
  "finite_float v = (\<bar>v\<bar> < 2 ^ 1024)"

text \<open>
  \<^verbatim>\<open>b ** x\<close> for a positive base and a float exponent: the power, rounded (the C
  library's \<^verbatim>\<open>pow\<close>, taken as correctly rounded). Python raises OverflowError when the
  result is too large for a float, and returns the rounded result, which may be zero,
  when it is too small.
\<close>

definition float_pow :: "real \<Rightarrow> real \<Rightarrow> error + real" where
  "float_pow b x =
     (let y = round_double (b powr x)
      in if 2 ^ 1024 \<le> \<bar>y\<bar> then Inl OverflowError else Inr y)"

subsection \<open>The closure \<^verbatim>\<open>modelrun\<close>\<close>

text \<open>
  \<^verbatim>\<open>
  def modelrun(x_train, y_train, x_test, y_test, lrexp, l1rexp, dro, units1, units2, alpha):
      cv_log = DL_single_run(xtr=x_train, ytr=y_train, units1=units1, units2=units2,
                             dro=dro, lr=10**lrexp, l1r=10**l1rexp, alpha=alpha,
                             batchsize=batch_size, numepochs=num_epochs)
      cv_preds = cv_log.model.predict(x_test, batch_size=1)[1]
      cv_C = concordance_index(y_test[:,1], -cv_preds, y_test[:,0])
      return cv_C
  \<close>
  \<open>batch_size\<close> and \<open>num_epochs\<close> are the variables of \<^verbatim>\<open>hypersearch_DL\<close> that the closure
  captures. The keyword arguments are evaluated in their order, so the two powers
  \<^verbatim>\<open>10**lrexp\<close> and \<^verbatim>\<open>10**l1rexp\<close> are computed, as floats, before the training routine
  is called, and a power that overflows raises there. The primed variables are the closure's parameters \<^verbatim>\<open>dro\<close>, \<^verbatim>\<open>units1\<close>,
  \<^verbatim>\<open>units2\<close> and \<^verbatim>\<open>alpha\<close>, whose plain names are the keywords of \<open>train_args\<close>.
\<close>

definition modelrun ::
  "('m, 's) libs \<Rightarrow> int \<Rightarrow> int \<Rightarrow> matrix \<Rightarrow> matrix \<Rightarrow> matrix \<Rightarrow> matrix \<Rightarrow>
   real \<Rightarrow> real \<Rightarrow> real \<Rightarrow> real \<Rightarrow> real \<Rightarrow> real \<Rightarrow> ('m, real) res" where
  "modelrun L batch_size num_epochs x_train y_train x_test y_test
            lrexp l1rexp dro' units1' units2' alpha' =
     bind_res (lift (float_pow 10 lrexp)) (\<lambda>lr'.
     bind_res (lift (float_pow 10 l1rexp)) (\<lambda>l1r'.
     (let args = \<lparr>xtr = x_train, ytr = y_train, units1 = units1', units2 = units2',
                  dro = dro', lr = lr', l1r = l1r', alpha = alpha',
                  batchsize = batch_size, numepochs = num_epochs\<rparr>
      in bind_res (call (Train args) (DL_single_run L args)) (\<lambda>cv_log.
         bind_res (call (Predict cv_log x_test 1) (predict L cv_log x_test 1)) (\<lambda>outs.
         bind_res (lift (item outs 1)) (\<lambda>cv_preds.
         bind_res (lift (column 1 y_test)) (\<lambda>times.
         bind_res (lift (column 0 y_test)) (\<lambda>status.
         call (Concordance times (map uminus cv_preds) status)
              (concordance_index L times (map uminus cv_preds) status)))))))))"

text \<open>
  The cross-validated function is called with the candidate as keyword arguments,
  \<^verbatim>\<open>modelrun(x_train, y_train, x_test, y_test, **pars)\<close>: a keyword the closure does
  not have, or a parameter left without a value, is a TypeError.
\<close>

definition hyper_names :: "string list" where
  "hyper_names = [''lrexp'', ''l1rexp'', ''dro'', ''units1'', ''units2'', ''alpha'']"

definition kwarg :: "pars \<Rightarrow> string \<Rightarrow> error + real" where
  "kwarg kw name = (case map_of kw name of None \<Rightarrow> Inl TypeError | Some v \<Rightarrow> Inr v)"

definition call_kwargs ::
  "(real \<Rightarrow> real \<Rightarrow> real \<Rightarrow> real \<Rightarrow> real \<Rightarrow> real \<Rightarrow> ('m, real) res) \<Rightarrow> pars \<Rightarrow> ('m, real) res" where
  "call_kwargs f kw =
     (if \<not> list_all (\<lambda>name. name \<in> set hyper_names) (map fst kw) then raise TypeError
      else bind_res (lift (kwarg kw ''lrexp'')) (\<lambda>lrexp.
           bind_res (lift (kwarg kw ''l1rexp'')) (\<lambda>l1rexp.
           bind_res (lift (kwarg kw ''dro'')) (\<lambda>dro'.
           bind_res (lift (kwarg kw ''units1'')) (\<lambda>units1'.
           bind_res (lift (kwarg kw ''units2'')) (\<lambda>units2'.
           bind_res (lift (kwarg kw ''alpha'')) (\<lambda>alpha'.
           f lrexp l1rexp dro' units1' units2' alpha')))))))"

subsection \<open>Cross-validation\<close>

text \<open>
  Modelled from the spec: \<^verbatim>\<open>optunity.cross_validated\<close> is an external library routine
  and not part of the source. The spec gives: the decorator wraps the evaluation closure
  with automatic cross-validation splitting; a fold is one partition of the data into
  train and test subsets; the feature and outcome arrays must have matching sample
  counts, enforced by the external libraries, and mismatched counts raise an error
  rather than truncating; the score of a candidate is the average of the closure's
  scores over the folds (the notebook says the same: each hyperparameter set is
  evaluated over cross-validation folds, with the average performance reported). How
  the rows are assigned to folds is the collaborator \<open>split_folds\<close>.
\<close>

definition make_folds :: "('m, 's) libs \<Rightarrow> matrix \<Rightarrow> matrix \<Rightarrow> int \<Rightarrow> error + fold list" where
  "make_folds L x y num_folds =
     (if length (rows x) \<noteq> length (rows y) then Inl ValueError
      else case split_folds L x y num_folds of
             Inl e \<Rightarrow> Inl e
           | Inr folds \<Rightarrow>
               if int (length folds) = num_folds then Inr folds else Inl AssertionError)"

text \<open>
  Modelled from the spec: the part of \<^verbatim>\<open>optunity.cross_validated\<close> that evaluates the
  closure on the folds, one after the other; an evaluation that raises ends the run.
\<close>

fun run_folds :: "(fold \<Rightarrow> ('m, real) res) \<Rightarrow> fold list \<Rightarrow> ('m, real list) res" where
  "run_folds f [] = ret []"
| "run_folds f (fd # fds) =
     bind_res (f fd) (\<lambda>score.
     bind_res (run_folds f fds) (\<lambda>scores.
     ret (score # scores)))"

text \<open>
  Modelled from the spec: the average that \<^verbatim>\<open>optunity.cross_validated\<close> reports; the
  average of no score is a division by zero.
\<close>

definition mean :: "real list \<Rightarrow> error + real" where
  "mean xs = (if xs = [] then Inl ZeroDivisionError else Inr (sum_list xs / real (length xs)))"

text \<open>
  Modelled from the spec: the cross-validated function, called with a candidate: the
  average of the closure's scores over the folds.
\<close>

definition cv_score ::
  "fold list \<Rightarrow> (matrix \<Rightarrow> matrix \<Rightarrow> matrix \<Rightarrow> matrix \<Rightarrow> pars \<Rightarrow> ('m, real) res) \<Rightarrow>
   pars \<Rightarrow> ('m, real) res" where
  "cv_score folds f kw =
     bind_res (run_folds (\<lambda>(x_train, y_train, x_test, y_test).
                            f x_train y_train x_test y_test kw) folds) (\<lambda>scores.
     lift (mean scores))"

text \<open>
  Modelled from the spec: the decorator \<^verbatim>\<open>optunity.cross_validated(x, y, num_folds)\<close>
  applied to the closure. The folds are made once, when the closure is decorated.
\<close>

definition cross_validated ::
  "('m, 's) libs \<Rightarrow> matrix \<Rightarrow> matrix \<Rightarrow> int \<Rightarrow>
   (matrix \<Rightarrow> matrix \<Rightarrow> matrix \<Rightarrow> matrix \<Rightarrow> pars \<Rightarrow> ('m, real) res) \<Rightarrow>
   error + (pars \<Rightarrow> ('m, real) res)" where
  "cross_validated L x y num_folds f =
     (case make_folds L x y num_folds of
        Inl e \<Rightarrow> Inl e
      | Inr folds \<Rightarrow> Inr (cv_score folds f))"

subsection \<open>The optimizer\<close>

text \<open>
  Modelled from the spec: \<^verbatim>\<open>optunity.maximize\<close> is an external library routine and not
  part of the source. The spec gives: a maximize routine parameterized by method name,
  evaluation budget and per-parameter bounds; ranges must be non-empty intervals,
  enforced by the library; an unsupported method name surfaces as the library's error;
  the optimizer searches the hyperparameter space to maximize the average
  cross-validated score and returns the argmax hyperparameter set and a log of the
  search holding the optimum score. The source shows that it returns three values.
  Which candidates a method tries is the collaborator \<open>propose\<close>; a failed evaluation
  ends the search with its error.
\<close>

text \<open>
  Modelled from the spec: the search loop of \<^verbatim>\<open>optunity.maximize\<close>, one evaluation per
  unit of the budget; the log holds the candidates with their scores, in order.
\<close>

fun search ::
  "('m, 's) libs \<Rightarrow> 's \<Rightarrow> (pars \<Rightarrow> ('m, real) res) \<Rightarrow> nat \<Rightarrow> (pars \<times> real) list \<Rightarrow>
   ('m, (pars \<times> real) list) res" where
  "search L solver f 0 h = ret h"
| "search L solver f (Suc n) h =
     (let kw = propose L solver h
      in bind_res (f kw) (\<lambda>score. search L solver f n (h @ [(kw, score)])))"

text \<open>
  Modelled from the spec: the arg-max of \<^verbatim>\<open>optunity.maximize\<close> over the log, the
  earliest of several best candidates.
\<close>

fun best_of :: "pars \<times> real \<Rightarrow> (pars \<times> real) list \<Rightarrow> pars \<times> real" where
  "best_of b [] = b"
| "best_of b (c # cs) = best_of (if snd b < snd c then c else b) cs"

text \<open>
  Modelled from the spec: \<^verbatim>\<open>optunity.maximize(f, num_evals, solver_name, **box)\<close>. An
  empty range, an unsupported method and a search without evaluation raise.
\<close>

definition maximize ::
  "('m, 's) libs \<Rightarrow> (pars \<Rightarrow> ('m, real) res) \<Rightarrow> int \<Rightarrow> string \<Rightarrow> box \<Rightarrow>
   ('m, pars \<times> searchlog \<times> 's) res" where
  "maximize L f num_evals solver_name bx =
     (if \<not> list_all (\<lambda>(name, lo, hi). lo \<le> hi) bx then raise AssertionError
      else bind_res (lift (suggest_solver L num_evals solver_name bx)) (\<lambda>suggestion.
           bind_res (search L suggestion f (nat num_evals) []) (\<lambda>h.
           case h of
             [] \<Rightarrow> raise ValueError
           | c # cs \<Rightarrow>
               (let b = best_of c cs
                in ret (fst b, \<lparr>optimum = snd b, call_log = h\<rparr>, suggestion)))))"

subsection \<open>Printing\<close>

definition print :: "string \<Rightarrow> ('m, unit) res" where
  "print s = call (Print s) (Inr ())"

text \<open>
  \<^verbatim>\<open>'%1.3f' % v\<close>: the sign, the integer digits, a point and three decimals of the
  float \<open>v\<close>, rounded to the nearest thousandth (an exact tie to the even one). The
  number printed is the float the real number stands for.
\<close>

definition digit_char :: "nat \<Rightarrow> char" where
  "digit_char d = ''0123456789'' ! (d mod 10)"

fun digits :: "nat \<Rightarrow> string" where
  "digits n = (if n < 10 then [digit_char n] else digits (n div 10) @ [digit_char (n mod 10)])"

declare digits.simps [simp del]

definition format_1_3f :: "real \<Rightarrow> string" where
  "format_1_3f v =
     (let x = round_double v; n = nat (round_half_even (\<bar>x\<bar> * 1000))
      in (if x < 0 then ''-'' else []) @ digits (n div 1000) @ ''.'' @
         [digit_char (n div 100), digit_char (n div 10), digit_char n])"

text \<open>
  Reading a printed decimal back: an optional minus sign, the digits before the point
  and the digits after it.
\<close>

definition digit_value :: "char \<Rightarrow> nat" where
  "digit_value c = length (takeWhile (\<lambda>d. d \<noteq> c) ''0123456789'')"

definition read_nat :: "string \<Rightarrow> nat" where
  "read_nat cs = foldl (\<lambda>n c. 10 * n + digit_value c) 0 cs"

definition read_decimal :: "string \<Rightarrow> real" where
  "read_decimal s =
     (let neg = (take 1 s = ''-'');
          body = (if neg then drop 1 s else s);
          whole = takeWhile (\<lambda>c. c \<noteq> CHR ''.'') body;
          frac = drop 1 (dropWhile (\<lambda>c. c \<noteq> CHR ''.'') body);
          v = real (read_nat whole) + real (read_nat frac) / 10 ^ length frac
      in if neg then - v else v)"

subsection \<open>The driver \<^verbatim>\<open>hypersearch_DL\<close>\<close>

text \<open>
  \<^verbatim>\<open>
  def hypersearch_DL(x_data, y_data, method, nfolds, nevals, lrexp_range, l1rexp_range,
                     dro_range, units1_range, units2_range, alpha_range,
                     batch_size, num_epochs):

      @optunity.cross_validated(x=x_data, y=y_data, num_folds=nfolds)
      def modelrun(...): ...

      optimal_pars, searchlog, _ = optunity.maximize(modelrun, num_evals=nevals,
          solver_name=method, lrexp=lrexp_range, l1rexp=l1rexp_range, dro=dro_range,
          units1=units1_range, units2=units2_range, alpha=alpha_range)

      print('Optimal hyperparameters : ' + str(optimal_pars))
      print('Cross-validated C after tuning: %1.3f' % searchlog.optimum)
      return optimal_pars, searchlog
  \<close>
\<close>

definition hypersearch_DL ::
  "('m, 's) libs \<Rightarrow> matrix \<Rightarrow> matrix \<Rightarrow> string \<Rightarrow> int \<Rightarrow> int \<Rightarrow>
   range \<Rightarrow> range \<Rightarrow> range \<Rightarrow> range \<Rightarrow> range \<Rightarrow> range \<Rightarrow> int \<Rightarrow> int \<Rightarrow>
   ('m, pars \<times> searchlog) res" where
  "hypersearch_DL L x_data y_data method nfolds nevals lrexp_range l1rexp_range dro_range
                  units1_range units2_range alpha_range batch_size num_epochs =
     bind_res (lift (cross_validated L x_data y_data nfolds
                 (\<lambda>x_train y_train x_test y_test.
                    call_kwargs (modelrun L batch_size num_epochs
                                   x_train y_train x_test y_test)))) (\<lambda>modelrun_cv.
     bind_res (maximize L modelrun_cv nevals method
                 [(''lrexp'', lrexp_range), (''l1rexp'', l1rexp_range), (''dro'', dro_range),
                  (''units1'', units1_range), (''units2'', units2_range),
                  (''alpha'', alpha_range)]) (\<lambda>(optimal_pars, searchlog, _).
     bind_res (print (''Optimal hyperparameters : '' @ str L optimal_pars)) (\<lambda>_.
     bind_res (print (''Cross-validated C after tuning: '' @
                      format_1_3f (optimum searchlog))) (\<lambda>_.
     ret (optimal_pars, searchlog)))))"

subsection \<open>Contracts of the collaborators\<close>

text \<open>
  \<open>in_range kw name r\<close>: the dict \<open>kw\<close> has a value under \<open>name\<close>, and it lies in the
  closed range \<open>r\<close>.
\<close>

definition in_range :: "pars \<Rightarrow> string \<Rightarrow> range \<Rightarrow> bool" where
  "in_range kw name r =
     (case map_of kw name of None \<Rightarrow> False | Some v \<Rightarrow> fst r \<le> v \<and> v \<le> snd r)"

definition in_box :: "pars \<Rightarrow> box \<Rightarrow> bool" where
  "in_box kw bx = list_all (\<lambda>(name, r). in_range kw name r) bx"

text \<open>
  Modelled from the spec: the solvers of \<^verbatim>\<open>optunity\<close> are external and not part of the
  source. The spec calls the search an exploration of a bounded parameter space with
  per-parameter bounds: a solver made for a box of non-empty ranges (a dict, so its names
  are distinct) proposes candidates that give every name of the box a value within its
  range.
\<close>

definition solver_in_box :: "('m, 's) libs \<Rightarrow> bool" where
  "solver_in_box L =
     (\<forall>n name bx solver h.
        distinct (map fst bx) \<longrightarrow>
        list_all (\<lambda>(name, lo, hi). lo \<le> hi) bx \<longrightarrow>
        suggest_solver L n name bx = Inr solver \<longrightarrow>
        in_box (propose L solver h) bx)"

text \<open>
  Modelled from the spec: \<^verbatim>\<open>lifelines.utils.concordance_index\<close> is external and not
  part of the source. The spec gives it as a function of observed times, predicted
  scores and event indicators that returns a scalar concordance value in \<open>[0, 1]\<close>.
\<close>

definition metric_in_unit_interval :: "('m, 's) libs \<Rightarrow> bool" where
  "metric_in_unit_interval L =
     (\<forall>times scores status c.
        concordance_index L times scores status = Inr c \<longrightarrow> 0 \<le> c \<and> c \<le> 1)"

subsection \<open>An instance of the collaborators\<close>

text \<open>
  A small deterministic instance, on which the driver can be run. The concordance
  index is Harrell's: over the comparable pairs (the first sample has an observed event
  and the shorter time), the fraction whose predicted scores are in the same order as
  their times, a tie counting one half; there is no value without a comparable pair.
\<close>

definition harrell :: "real list \<Rightarrow> real list \<Rightarrow> real list \<Rightarrow> error + real" where
  "harrell event_times predicted_scores event_observed =
     (let obs = zip event_times (zip predicted_scores event_observed);
          pairs = [(a, b). a \<leftarrow> obs, b \<leftarrow> obs, snd (snd a) \<noteq> 0 \<and> fst a < fst b];
          credit = (\<lambda>(a, b). if fst (snd a) < fst (snd b) then 1
                              else if fst (snd a) = fst (snd b) then 1 / 2 else 0)
      in if length predicted_scores \<noteq> length event_times \<or>
            length event_observed \<noteq> length event_times then Inl ValueError
         else if pairs = [] then Inl ZeroDivisionError
         else Inr (sum_list (map credit pairs) / real (length pairs)))"

text \<open>Folds by row index modulo the number of folds.\<close>

definition pick :: "(nat \<Rightarrow> bool) \<Rightarrow> matrix \<Rightarrow> matrix" where
  "pick P m = m\<lparr>rows := map snd (filter (\<lambda>(i, r). P i) (enumerate 0 (rows m)))\<rparr>"

definition round_robin :: "matrix \<Rightarrow> matrix \<Rightarrow> int \<Rightarrow> error + fold list" where
  "round_robin x y num_folds =
     Inr (map (\<lambda>j. (pick (\<lambda>i. i mod nat num_folds \<noteq> j) x,
                     pick (\<lambda>i. i mod nat num_folds \<noteq> j) y,
                     pick (\<lambda>i. i mod nat num_folds = j) x,
                     pick (\<lambda>i. i mod nat num_folds = j) y))
              [0..<nat num_folds])"

text \<open>
  The model is the number of training rows, its two outputs are the flattened input and
  the row sums (the risk), a solver is its box, and the candidate after \<open>k\<close>
  evaluations lies at \<open>1 / (k + 1)\<close> of each range.
\<close>

definition demo_libs :: "(nat, box) libs" where
  "demo_libs =
     \<lparr>DL_single_run = (\<lambda>a. Inr (length (rows (xtr a)))),
      predict = (\<lambda>m x b. Inr [concat (rows x), map sum_list (rows x)]),
      concordance_index = harrell,
      split_folds = round_robin,
      suggest_solver = (\<lambda>n name bx.
         if name \<in> set [''grid search'', ''random'', ''sobol'', ''particle swarm'']
         then Inr bx else Inl (LibraryError name)),
      propose = (\<lambda>bx h.
         map (\<lambda>(name, lo, hi). (name, lo + (hi - lo) / real (Suc (length h)))) bx),
      str = (\<lambda>kw. concat (map fst kw))\<rparr>"

text \<open>Four samples; the outcome rows are (censoring status, survival time).\<close>

definition demo_x :: matrix where
  "demo_x = \<lparr>ncols = 1, rows = [[3], [4], [2], [1]]\<rparr>"

definition demo_y :: matrix where
  "demo_y = \<lparr>ncols = 2, rows = [[1, 2], [1, 5], [1, 3], [1, 4]]\<rparr>"

text \<open>The rows of odd and of even index, as the two folds take them.\<close>

definition demo_x_odd :: matrix where
  "demo_x_odd = \<lparr>ncols = 1, rows = [[4], [1]]\<rparr>"

definition demo_y_odd :: matrix where
  "demo_y_odd = \<lparr>ncols = 2, rows = [[1, 5], [1, 4]]\<rparr>"

definition demo_x_even :: matrix where
  "demo_x_even = \<lparr>ncols = 1, rows = [[3], [2]]\<rparr>"

definition demo_y_even :: matrix where
  "demo_y_even = \<lparr>ncols = 2, rows = [[1, 2], [1, 3]]\<rparr>"

definition demo_folds :: "fold list" where
  "demo_folds =
     [(demo_x_odd, demo_y_odd, demo_x_even, demo_y_even),
      (demo_x_even, demo_y_even, demo_x_odd, demo_y_odd)]"

text \<open>
  An outcome array laid out the other way round, as (survival time, censoring
  indicator): the first sample dies at time 5, the second is censored at time 7.
\<close>

definition time_first_y :: matrix where
  "time_first_y = \<lparr>ncols = 2, rows = [[5, 1], [7, 0]]\<rparr>"

definition demo_pars :: pars where
  "demo_pars =
     [(''lrexp'', - 9 / 2), (''l1rexp'', - 4), (''dro'', 9 / 10),
      (''units1'', 250), (''units2'', 20), (''alpha'', 7 / 10)]"

text \<open>The lines a trace prints, in order.\<close>

fun printed :: "'m event list \<Rightarrow> string list" where
  "printed [] = []"
| "printed (Print line # evs) = line # printed evs"
| "printed (ev # evs) = printed evs"

text \<open>The paths of the files a trace writes, in order.\<close>

fun files_written :: "'m event list \<Rightarrow> string list" where
  "files_written [] = []"
| "files_written (FileWrite path content # evs) = path # files_written evs"
| "files_written (ev # evs) = files_written evs"

text \<open>A string that ends in a point and exactly three decimal digits after a non-empty front.\<close>

definition is_digit :: "char \<Rightarrow> bool" where
  "is_digit c = (c \<in> set ''0123456789'')"

definition three_decimals :: "string \<Rightarrow> bool" where
  "three_decimals s =
     (case rev s of
        d3 # d2 # d1 # p # front \<Rightarrow>
          p = CHR ''.'' \<and> is_digit d1 \<and> is_digit d2 \<and> is_digit d3 \<and> front \<noteq> []
      | _ \<Rightarrow> False)"

text \<open>An outcome array with one sample fewer than \<open>demo_x\<close>.\<close>

definition demo_y_short :: matrix where
  "demo_y_short = \<lparr>ncols = 2, rows = [[1, 2], [1, 5], [1, 3]]\<rparr>"

text \<open>A degenerate box, and the one candidate it leaves.\<close>

definition demo_point :: pars where
  "demo_point =
     [(''lrexp'', - 5), (''l1rexp'', - 6), (''dro'', 1 / 2),
      (''units1'', 100), (''units2'', 10), (''alpha'', 1 / 2)]"

section \<open>Properties\<close>

subsection \<open>Floats\<close>

lemma round_half_even_bounds:
  "v - 1 / 2 \<le> of_int (round_half_even v)" "of_int (round_half_even v) \<le> v + 1 / 2"
  unfolding round_half_even_def Let_def by (auto; linarith)+

lemma round_half_even_ge: "of_int \<lfloor>v\<rfloor> \<le> (of_int (round_half_even v) :: real)"
  unfolding round_half_even_def Let_def by auto

lemma round_half_even_small: "0 \<le> v \<Longrightarrow> v < 1 / 2 \<Longrightarrow> round_half_even v = 0"
proof -
  assume a: "0 \<le> v" "v < 1 / 2"
  then have "\<lfloor>v\<rfloor> = 0" by (simp add: floor_eq_iff)
  with a show ?thesis by (simp add: round_half_even_def)
qed

lemma double_quantum_pos: "0 < double_quantum y"
  by (simp add: double_quantum_def)

lemma quantum_le:
  assumes "0 < y"
  shows "double_quantum y \<le> max (2 powr (- 1074)) (y * 2 powr (- 52))"
proof (cases "- 1022 \<le> \<lfloor>log 2 y\<rfloor>")
  case True
  have "2 powr of_int \<lfloor>log 2 y\<rfloor> \<le> 2 powr log 2 y"
    by (intro powr_mono) simp_all
  also have "\<dots> = y" using assms by simp
  finally have "2 powr of_int \<lfloor>log 2 y\<rfloor> \<le> y" .
  then have "2 powr of_int \<lfloor>log 2 y\<rfloor> * 2 powr (- 52) \<le> y * 2 powr (- 52)"
    by (intro mult_right_mono) simp_all
  moreover have "double_quantum y = 2 powr of_int \<lfloor>log 2 y\<rfloor> * 2 powr (- 52)"
    using True assms by (simp add: double_quantum_def max_def powr_add [symmetric])
  ultimately have "double_quantum y \<le> y * 2 powr (- 52)" by simp
  then show ?thesis by (simp add: le_max_iff_disj)
next
  case False
  then have "double_quantum y = 2 powr (- 1074)"
    using assms by (simp add: double_quantum_def max_def)
  then show ?thesis by simp
qed

lemma quantum_ge: "2 powr (- 1074) \<le> double_quantum y"
  unfolding double_quantum_def by (intro powr_mono) simp_all

lemma quantum_small:
  assumes "0 < y" and "y < 2 powr (- 1022)"
  shows "double_quantum y = 2 powr (- 1074)"
proof -
  have "log 2 y < log 2 (2 powr (- 1022))"
    using assms by (subst log_less_cancel_iff) simp_all
  then have "log 2 y < - 1022" by simp
  then have "\<lfloor>log 2 y\<rfloor> < - 1022" by linarith
  then show ?thesis using assms by (simp add: double_quantum_def max_def)
qed


lemma round_double_nonneg: "0 \<le> y \<Longrightarrow> 0 \<le> round_double y"
proof -
  assume "0 \<le> y"
  then have "0 \<le> y / double_quantum y" using double_quantum_pos [of y] by simp
  then have "(0::real) \<le> of_int \<lfloor>y / double_quantum y\<rfloor>" by simp
  with round_half_even_ge [of "y / double_quantum y"]
  have "(0::real) \<le> of_int (round_half_even (y / double_quantum y))" by linarith
  then show ?thesis using double_quantum_pos [of y] by (simp add: round_double_def)
qed

lemma round_double_pos:
  assumes "2 powr (- 1074) \<le> y"
  shows "0 < round_double y"
proof -
  have pos: "0 < y" using assms by (rule less_le_trans [rotated]) simp
  have "y * 2 powr (- 52) \<le> y * 1"
    using pos by (intro mult_left_mono) (simp_all add: powr_minus)
  with quantum_le [OF pos] assms have "double_quantum y \<le> y" by simp
  then have "1 \<le> y / double_quantum y" using double_quantum_pos [of y] by simp
  then have "(1::real) \<le> of_int \<lfloor>y / double_quantum y\<rfloor>" by simp
  with round_half_even_ge [of "y / double_quantum y"]
  have "(0::real) < of_int (round_half_even (y / double_quantum y))" by linarith
  then show ?thesis using double_quantum_pos [of y] pos by (simp add: round_double_def)
qed

lemma round_double_underflow:
  assumes "0 < y" and "y < 2 powr (- 1075)"
  shows "round_double y = 0"
proof -
  have "2 powr (- 1075) \<le> (2::real) powr (- 1022)" by (intro powr_mono) simp_all
  with assms have "y < 2 powr (- 1022)" by linarith
  with assms have q: "double_quantum y = 2 powr (- 1074)" by (intro quantum_small)
  have "y / 2 powr (- 1074) < 2 powr (- 1075) / 2 powr (- 1074)"
    using assms by (intro divide_strict_right_mono) simp_all
  also have "\<dots> = (1 / 2 :: real)" by (simp add: powr_diff [symmetric])
  finally have "y / 2 powr (- 1074) < 1 / 2" .
  moreover have "0 \<le> y / 2 powr (- 1074)" using assms by simp
  ultimately have "round_half_even (y / 2 powr (- 1074)) = 0" by (intro round_half_even_small)
  then show ?thesis by (simp add: round_double_def q)
qed

lemma half_quantum_le:
  assumes "0 < y"
  shows "double_quantum y / 2 \<le> 2 powr (- 1075) + y * 2 powr (- 53)"
proof -
  have a: "(2::real) powr (- 1074) / 2 = 2 powr (- 1075)" by (simp add: powr_minus)
  have b: "y * 2 powr (- 52) / 2 = y * 2 powr (- 53)" by (simp add: powr_minus)
  from quantum_le [OF assms]
  have "double_quantum y / 2 \<le> max (2 powr (- 1074)) (y * 2 powr (- 52)) / 2" by simp
  also have "\<dots> \<le> 2 powr (- 1074) / 2 + y * 2 powr (- 52) / 2"
    using assms by (simp add: max_def)
  finally show ?thesis unfolding a b .
qed

lemma round_double_near:
  assumes "0 < y"
  shows "\<bar>round_double y - y\<bar> \<le> 2 powr (- 1075) + y * 2 powr (- 53)"
proof -
  let ?q = "double_quantum y"
  let ?r = "(of_int (round_half_even (y / ?q)) :: real)"
  have q: "0 < ?q" by (rule double_quantum_pos)
  from round_half_even_bounds [of "y / ?q"] have "\<bar>?r - y / ?q\<bar> \<le> 1 / 2" by linarith
  then have "\<bar>?r - y / ?q\<bar> * ?q \<le> 1 / 2 * ?q" using q by (intro mult_right_mono) simp_all
  moreover have "(?r - y / ?q) * ?q = ?r * ?q - y"
    using q by (simp add: left_diff_distrib)
  then have "\<bar>?r - y / ?q\<bar> * ?q = \<bar>?r * ?q - y\<bar>"
    using q abs_mult [of "?r - y / ?q" ?q] by simp
  ultimately have "\<bar>?r * ?q - y\<bar> \<le> ?q / 2" by simp
  with half_quantum_le [OF assms] assms show ?thesis by (simp add: round_double_def)
qed

lemma float_pow10_in_range:
  assumes "x \<le> 308"
  shows "float_pow 10 x = Inr (round_double (10 powr x))"
proof -
  let ?y = "(10::real) powr x"
  have pos: "0 < ?y" by simp
  have "?y \<le> 10 powr 308" using assms by (intro powr_mono) simp_all
  then have le: "?y \<le> 10 ^ 308" by simp
  from round_double_near [OF pos]
  have "round_double ?y \<le> ?y + (2 powr (- 1075) + ?y * 2 powr (- 53))" by linarith
  also have "\<dots> \<le> 10 ^ 308 + (2 powr (- 1075) + 10 ^ 308 * 2 powr (- 53))"
    using le by (intro add_mono mult_right_mono) simp_all
  also have "\<dots> < 2 ^ 1024" by (simp add: powr_minus)
  finally have "round_double ?y < 2 ^ 1024" .
  moreover have "0 \<le> round_double ?y" by (intro round_double_nonneg) simp
  ultimately show ?thesis by (simp add: float_pow_def Let_def)
qed

lemma float_pow10_overflow:
  assumes "309 \<le> x"
  shows "float_pow 10 x = Inl OverflowError"
proof -
  let ?y = "(10::real) powr x"
  have pos: "0 < ?y" by simp
  have "10 powr 309 \<le> ?y" using assms by (intro powr_mono) simp_all
  then have ge: "10 ^ 309 \<le> ?y" by simp
  have "(2::real) ^ 1024 \<le> 10 ^ 309 * (1 - 2 powr (- 53)) - 2 powr (- 1075)"
    by (simp add: powr_minus)
  also have "\<dots> \<le> ?y * (1 - 2 powr (- 53)) - 2 powr (- 1075)"
    using ge by (intro diff_right_mono mult_right_mono) (simp_all add: powr_minus)
  also have "\<dots> \<le> round_double ?y"
    using round_double_near [OF pos] by (simp add: algebra_simps)
  finally have "2 ^ 1024 \<le> \<bar>round_double ?y\<bar>" by simp
  then show ?thesis by (simp add: float_pow_def Let_def)
qed

lemma pow10_positive:
  assumes "- 323 \<le> x"
  shows "0 < round_double (10 powr x)"
proof -
  have "(2::real) powr (- 1074) \<le> 10 powr (- 323)" by (simp add: powr_minus field_simps)
  also have "\<dots> \<le> 10 powr x" using assms by (intro powr_mono) simp_all
  finally show ?thesis by (rule round_double_pos)
qed

lemma pow10_underflow:
  assumes "x \<le> - 324"
  shows "round_double (10 powr x) = 0"
proof -
  have "(10::real) powr x \<le> 10 powr (- 324)" using assms by (intro powr_mono) simp_all
  also have "\<dots> < 2 powr (- 1075)" by (simp add: powr_minus field_simps)
  finally show ?thesis by (intro round_double_underflow) simp_all
qed

subsection \<open>Printed decimals\<close>

lemma digit_cases:
  assumes "k < (10::nat)"
  obtains "k = 0" | "k = 1" | "k = 2" | "k = 3" | "k = 4" | "k = 5" | "k = 6" | "k = 7"
    | "k = 8" | "k = 9"
  using assms by atomize_elim arith

lemma digit_value_digit_char: "digit_value (digit_char d) = d mod 10"
proof -
  have "d mod 10 < 10" by simp
  then show ?thesis
    by (cases rule: digit_cases) (simp_all add: digit_char_def digit_value_def)
qed

lemma is_digit_digit_char: "is_digit (digit_char d)"
proof -
  have "d mod 10 < length ''0123456789''" by simp
  from nth_mem [OF this] show ?thesis by (simp only: is_digit_def digit_char_def)
qed

lemma digit_char_not_point: "digit_char d \<noteq> CHR ''.''" "digit_char d \<noteq> CHR ''-''"
  using is_digit_digit_char [of d] by (auto simp: is_digit_def)

lemma digits_nonempty: "digits n \<noteq> []"
  by (subst digits.simps) simp

lemma digits_all: "c \<in> set (digits n) \<Longrightarrow> c \<noteq> CHR ''.'' \<and> c \<noteq> CHR ''-''"
proof (induction n rule: digits.induct)
  case (1 n)
  show ?case
  proof (cases "n < 10")
    case True
    with "1.prems" have "c = digit_char n" by (subst (asm) digits.simps) simp
    then show ?thesis using digit_char_not_point by simp
  next
    case False
    with "1.prems" have "c \<in> set (digits (n div 10)) \<or> c = digit_char (n mod 10)"
      by (subst (asm) digits.simps) auto
    with "1.IH" [OF False] digit_char_not_point show ?thesis by auto
  qed
qed

lemma read_nat_snoc: "read_nat (cs @ [c]) = 10 * read_nat cs + digit_value c"
  by (simp add: read_nat_def)

lemma read_nat_digits: "read_nat (digits n) = n"
proof (induction n rule: digits.induct)
  case (1 n)
  show ?case
  proof (cases "n < 10")
    case True
    then have "digits n = [digit_char n]" by (subst digits.simps) simp
    with True show ?thesis by (simp add: read_nat_def digit_value_digit_char)
  next
    case False
    then have "digits n = digits (n div 10) @ [digit_char (n mod 10)]"
      by (subst digits.simps) simp
    with "1.IH" [OF False] show ?thesis
      by (simp add: read_nat_snoc digit_value_digit_char)
  qed
qed

lemma read_nat_three:
  "read_nat [digit_char (n div 100), digit_char (n div 10), digit_char n] = n mod 1000"
proof -
  have "read_nat [digit_char (n div 100), digit_char (n div 10), digit_char n] =
        100 * (n div 100 mod 10) + 10 * (n div 10 mod 10) + n mod 10"
    by (simp add: read_nat_def digit_value_digit_char)
  also have "\<dots> = n mod 1000"
  proof -
    have a: "n mod (10 * 100) = 10 * (n div 10 mod 100) + n mod 10" by (rule mod_mult2_eq)
    have b: "n div 10 mod (10 * 10) = 10 * (n div 10 div 10 mod 10) + n div 10 mod 10"
      by (rule mod_mult2_eq)
    have c: "n div 10 div 10 = n div 100" by (simp add: div_mult2_eq [symmetric])
    from a b c show ?thesis by simp
  qed
  finally show ?thesis .
qed

lemma takeWhile_digits:
  "takeWhile (\<lambda>c. c \<noteq> CHR ''.'') (digits w @ CHR ''.'' # rest) = digits w"
  "dropWhile (\<lambda>c. c \<noteq> CHR ''.'') (digits w @ CHR ''.'' # rest) = CHR ''.'' # rest"
  using digits_all [of _ w] by (simp_all add: takeWhile_append2 dropWhile_append2)

lemma digits_no_minus: "take 1 (digits w @ rest) \<noteq> ''-''"
proof -
  obtain c cs where d: "digits w = c # cs" using digits_nonempty [of w] by (cases "digits w") auto
  then have "c \<in> set (digits w)" by simp
  from digits_all [OF this] d show ?thesis by simp
qed

lemma read_decimal_layout:
  "read_decimal (digits w @ ''.'' @ [digit_char (n div 100), digit_char (n div 10), digit_char n]) =
     real w + real (n mod 1000) / 1000"
  using digits_no_minus [of w "''.'' @ [digit_char (n div 100), digit_char (n div 10), digit_char n]"]
  by (simp add: read_decimal_def takeWhile_digits read_nat_digits read_nat_three)

lemma read_decimal_minus:
  "read_decimal (''-'' @ digits w @ ''.'' @ [digit_char (n div 100), digit_char (n div 10), digit_char n]) =
     - (real w + real (n mod 1000) / 1000)"
  by (simp add: read_decimal_def takeWhile_digits read_nat_digits read_nat_three)

lemma read_decimal_format:
  "\<bar>read_decimal (format_1_3f v) - round_double v\<bar> \<le> 1 / 2000"
proof -
  define x where "x = round_double v"
  define n where "n = nat (round_half_even (\<bar>x\<bar> * 1000))"
  have r: "\<bar>x\<bar> * 1000 - 1 / 2 \<le> of_int (round_half_even (\<bar>x\<bar> * 1000))"
    "of_int (round_half_even (\<bar>x\<bar> * 1000)) \<le> \<bar>x\<bar> * 1000 + 1 / 2"
    by (rule round_half_even_bounds)+
  have "(0::real) \<le> of_int \<lfloor>\<bar>x\<bar> * 1000\<rfloor>" by simp
  with round_half_even_ge [of "\<bar>x\<bar> * 1000"]
  have "0 \<le> round_half_even (\<bar>x\<bar> * 1000)" by linarith
  then have n: "real n = of_int (round_half_even (\<bar>x\<bar> * 1000))" by (simp add: n_def)
  have split: "real (n div 1000) + real (n mod 1000) / 1000 = real n / 1000"
  proof -
    have "real n = real (n div 1000 * 1000 + n mod 1000)" by simp
    also have "\<dots> = real (n div 1000) * 1000 + real (n mod 1000)" by (simp only: of_nat_add of_nat_mult of_nat_numeral)
    finally show ?thesis by simp
  qed
  have near: "\<bar>real n / 1000 - \<bar>x\<bar>\<bar> \<le> 1 / 2000"
  proof -
    from r n have "- (1 / 2) \<le> real n - \<bar>x\<bar> * 1000" "real n - \<bar>x\<bar> * 1000 \<le> 1 / 2"
      by linarith+
    then have "- (1 / 2000) \<le> real n / 1000 - \<bar>x\<bar>" "real n / 1000 - \<bar>x\<bar> \<le> 1 / 2000"
      by linarith+
    then show ?thesis by (intro abs_leI) linarith+
  qed
  have fmt: "format_1_3f v =
      (if x < 0 then ''-'' else []) @ digits (n div 1000) @ ''.'' @
        [digit_char (n div 100), digit_char (n div 10), digit_char n]"
    unfolding format_1_3f_def Let_def x_def n_def by (rule refl)
  show ?thesis
  proof (cases "x < 0")
    case True
    then have "read_decimal (format_1_3f v) = - (real n / 1000)"
      unfolding fmt using read_decimal_minus [of "n div 1000" n] by (simp add: split)
    moreover have "\<bar>- (real n / 1000) - x\<bar> = \<bar>real n / 1000 - \<bar>x\<bar>\<bar>"
      using True by (simp add: abs_minus_commute [of _ x] abs_if)
    ultimately show ?thesis using near unfolding x_def [symmetric] by (simp only:)
  next
    case False
    then have "read_decimal (format_1_3f v) = real n / 1000"
      unfolding fmt using read_decimal_layout [of "n div 1000" n] by (simp add: split)
    moreover have "\<bar>real n / 1000 - x\<bar> = \<bar>real n / 1000 - \<bar>x\<bar>\<bar>"
      using False by simp
    ultimately show ?thesis using near unfolding x_def [symmetric] by (simp only:)
  qed
qed

lemma round_double_eval:
  assumes "1 / 2 ^ k \<le> \<bar>y\<bar>" and "\<bar>y\<bar> < 2 / 2 ^ k" and "k \<le> 1022"
  shows "round_double y = of_int (round_half_even (y * 2 ^ (k + 52))) / 2 ^ (k + 52)"
proof -
  have pos: "0 < \<bar>y\<bar>" using assms(1) by (rule less_le_trans [rotated]) simp
  have p: "(2::real) powr (- real k) = 1 / 2 ^ k"
    by (simp add: powr_minus powr_realpow divide_inverse)
  have "(2::real) powr (- real k + 1) = 2 powr (- real k) * 2 powr 1"
    by (rule powr_add)
  then have p1: "(2::real) powr (- real k + 1) = 2 / 2 ^ k" by (simp add: p)
  have lo: "2 powr (- real k) \<le> \<bar>y\<bar>" using assms(1) by (simp only: p)
  have hi: "\<bar>y\<bar> < 2 powr (- real k + 1)" using assms(2) by (simp only: p1)
  have "- real k \<le> log 2 \<bar>y\<bar>" using lo pos by (simp add: le_log_iff)
  moreover have "log 2 \<bar>y\<bar> < - real k + 1" using hi pos by (simp add: log_less_iff)
  ultimately have "\<lfloor>log 2 \<bar>y\<bar>\<rfloor> = - int k" by (simp add: floor_eq_iff)
  then have "double_quantum y = 2 powr (- real (k + 52))"
    using assms(3) by (simp add: double_quantum_def max_def)
  also have "\<dots> = 1 / 2 ^ (k + 52)"
    using powr_realpow [of 2 "k + 52"] powr_minus [of 2 "real (k + 52)"]
    by (simp add: divide_inverse)
  finally have q: "double_quantum y = 1 / 2 ^ (k + 52)" .
  from pos have "y \<noteq> 0" by simp
  then show ?thesis by (simp add: round_double_def q)
qed

lemma round_double_half: "round_double (1 / 2) = 1 / 2"
  using round_double_eval [of 1 "1 / 2"] by (simp add: round_half_even_def)

lemma format_half: "format_1_3f (1 / 2) = ''0.500''"
  by (simp add: format_1_3f_def round_double_half round_half_even_def digit_char_def
      digits.simps)

lemma format_nearest_float: "format_1_3f (9 / 80) = ''0.113''"
proof -
  have rd: "round_double (9 / 80) = 8106479329266893 / 2 ^ 56"
    using round_double_eval [of 4 "9 / 80"] by (simp add: round_half_even_def)
  show ?thesis
    unfolding format_1_3f_def rd
    by (simp add: round_half_even_def digit_char_def digits.simps)
qed

subsection \<open>Results and traces\<close>

lemma bind_res_pair:
  "bind_res (Inl e, t) f = (Inl e, t)"
  "bind_res (Inr a, t) f = apsnd ((@) t) (f a)"
  by (simp_all add: bind_res_def)

lemma fst_bind_res:
  "fst (bind_res m f) = (case fst m of Inl e \<Rightarrow> Inl e | Inr a \<Rightarrow> fst (f a))"
  by (simp add: bind_res_def split: sum.split)

lemma snd_bind_res:
  "snd (bind_res m f) = (case fst m of Inl e \<Rightarrow> snd m | Inr a \<Rightarrow> snd m @ snd (f a))"
  by (simp add: bind_res_def split: sum.split)

lemma bind_res_Inr:
  "fst (bind_res m f) = Inr b \<longleftrightarrow> (\<exists>a. fst m = Inr a \<and> fst (f a) = Inr b)"
  by (simp add: fst_bind_res split: sum.split)

lemma bind_res_event:
  "ev \<in> set (snd (bind_res m f)) \<Longrightarrow>
     ev \<in> set (snd m) \<or> (\<exists>a. fst m = Inr a \<and> ev \<in> set (snd (f a)))"
  by (auto simp: snd_bind_res split: sum.splits)

lemma res_simps [simp]:
  "fst (ret a) = Inr a" "snd (ret a) = []"
  "fst (raise e) = Inl e" "snd (raise e) = []"
  "fst (lift r) = r" "snd (lift r) = []"
  "fst (call ev r) = r" "snd (call ev r) = [ev]"
  by (simp_all add: ret_def raise_def lift_def call_def)

lemma item_Inr: "item xs i = Inr v \<longleftrightarrow> i < length xs \<and> v = xs ! i"
  by (auto simp: item_def)

lemma modelrun_success:
  assumes "fst (modelrun L batch_size num_epochs x_train y_train x_test y_test
                 lrexp l1rexp d u1 u2 al) = Inr c"
  shows "\<exists>lr' l1r' a cv_log outs times status.
           float_pow 10 lrexp = Inr lr' \<and> float_pow 10 l1rexp = Inr l1r' \<and>
           a = \<lparr>xtr = x_train, ytr = y_train, units1 = u1, units2 = u2, dro = d,
                lr = lr', l1r = l1r', alpha = al,
                batchsize = batch_size, numepochs = num_epochs\<rparr> \<and>
           DL_single_run L a = Inr cv_log \<and>
           predict L cv_log x_test 1 = Inr outs \<and> 1 < length outs \<and>
           column 1 y_test = Inr times \<and> column 0 y_test = Inr status \<and>
           concordance_index L times (map uminus (outs ! 1)) status = Inr c \<and>
           snd (modelrun L batch_size num_epochs x_train y_train x_test y_test
                  lrexp l1rexp d u1 u2 al) =
             [Train a, Predict cv_log x_test 1,
              Concordance times (map uminus (outs ! 1)) status]"
  using assms
  by (auto simp: modelrun_def Let_def bind_res_Inr snd_bind_res item_def split: if_splits)

lemma modelrun_event:
  assumes "ev \<in> set (snd (modelrun L batch_size num_epochs x_train y_train x_test y_test
                 lrexp l1rexp d u1 u2 al))"
  shows "\<exists>lr' l1r'.
         float_pow 10 lrexp = Inr lr' \<and> float_pow 10 l1rexp = Inr l1r' \<and>
        (ev = Train \<lparr>xtr = x_train, ytr = y_train, units1 = u1, units2 = u2, dro = d,
                lr = lr', l1r = l1r', alpha = al,
                batchsize = batch_size, numepochs = num_epochs\<rparr> \<or>
         (\<exists>cv_log. ev = Predict cv_log x_test 1) \<or>
         (\<exists>cv_log outs times status.
             DL_single_run L \<lparr>xtr = x_train, ytr = y_train, units1 = u1, units2 = u2,
                 dro = d, lr = lr', l1r = l1r', alpha = al,
                 batchsize = batch_size, numepochs = num_epochs\<rparr> = Inr cv_log \<and>
             predict L cv_log x_test 1 = Inr outs \<and> 1 < length outs \<and>
             column 1 y_test = Inr times \<and> column 0 y_test = Inr status \<and>
             ev = Concordance times (map uminus (outs ! 1)) status))"
  using assms
  by (auto simp: modelrun_def Let_def snd_bind_res item_def split: sum.splits if_splits)

lemma modelrun_overflow:
  assumes "float_pow 10 lrexp = Inl e \<or>
           (\<exists>v. float_pow 10 lrexp = Inr v) \<and> float_pow 10 l1rexp = Inl e"
  shows "modelrun L batch_size num_epochs x_train y_train x_test y_test
           lrexp l1rexp d u1 u2 al = (Inl e, [])"
  using assms by (auto simp: modelrun_def bind_res_def lift_def)

subsection \<open>Keyword arguments, folds and search\<close>

lemma kwarg_Inr: "kwarg kw name = Inr v \<longleftrightarrow> map_of kw name = Some v"
  by (simp add: kwarg_def split: option.split)

lemma lift_bind:
  "bind_res (lift (Inr a)) f = f a"
  by (cases "f a") (simp add: bind_res_def lift_def)

lemma lift_bind_event:
  assumes "ev \<in> set (snd (bind_res (lift r) f))"
  obtains a where "r = Inr a" and "ev \<in> set (snd (f a))"
  using assms by (cases r) (auto simp: snd_bind_res)

lemma lift_bind_success:
  assumes "fst (bind_res (lift r) f) = Inr c"
  obtains a where "r = Inr a" and "fst (f a) = Inr c"
  using assms by (cases r) (auto simp: fst_bind_res)

lemma call_kwargs_eq:
  assumes "list_all (\<lambda>name. name \<in> set hyper_names) (map fst kw)"
    and "kwarg kw ''lrexp'' = Inr lrexp" and "kwarg kw ''l1rexp'' = Inr l1rexp"
    and "kwarg kw ''dro'' = Inr d" and "kwarg kw ''units1'' = Inr u1"
    and "kwarg kw ''units2'' = Inr u2" and "kwarg kw ''alpha'' = Inr al"
  shows "call_kwargs f kw = f lrexp l1rexp d u1 u2 al"
  using assms by (simp add: call_kwargs_def lift_bind)

lemma call_kwargs_success:
  assumes "fst (call_kwargs f kw) = Inr c"
  shows "\<exists>lrexp l1rexp d u1 u2 al.
           map_of kw ''lrexp'' = Some lrexp \<and> map_of kw ''l1rexp'' = Some l1rexp \<and>
           map_of kw ''dro'' = Some d \<and> map_of kw ''units1'' = Some u1 \<and>
           map_of kw ''units2'' = Some u2 \<and> map_of kw ''alpha'' = Some al \<and>
           call_kwargs f kw = f lrexp l1rexp d u1 u2 al"
proof -
  from assms have ok: "list_all (\<lambda>name. name \<in> set hyper_names) (map fst kw)"
    by (auto simp: call_kwargs_def split: if_splits)
  with assms obtain lrexp l1rexp d u1 u2 al where k:
    "kwarg kw ''lrexp'' = Inr lrexp" "kwarg kw ''l1rexp'' = Inr l1rexp"
    "kwarg kw ''dro'' = Inr d" "kwarg kw ''units1'' = Inr u1"
    "kwarg kw ''units2'' = Inr u2" "kwarg kw ''alpha'' = Inr al"
    by (auto simp: call_kwargs_def bind_res_Inr)
  from call_kwargs_eq [OF ok k] k show ?thesis
    by (simp add: kwarg_Inr)
qed

lemma call_kwargs_event:
  assumes "ev \<in> set (snd (call_kwargs f kw))"
  shows "\<exists>lrexp l1rexp d u1 u2 al.
           map_of kw ''lrexp'' = Some lrexp \<and> map_of kw ''l1rexp'' = Some l1rexp \<and>
           map_of kw ''dro'' = Some d \<and> map_of kw ''units1'' = Some u1 \<and>
           map_of kw ''units2'' = Some u2 \<and> map_of kw ''alpha'' = Some al \<and>
           call_kwargs f kw = f lrexp l1rexp d u1 u2 al"
proof -
  have ok: "list_all (\<lambda>name. name \<in> set hyper_names) (map fst kw)"
  proof (rule ccontr)
    assume "\<not> ?thesis"
    then have "snd (call_kwargs f kw) = []" by (simp add: call_kwargs_def)
    with assms show False by simp
  qed
  from assms ok obtain lrexp where k1: "kwarg kw ''lrexp'' = Inr lrexp"
    by (simp add: call_kwargs_def) (erule lift_bind_event)
  from assms ok k1 obtain l1rexp where k2: "kwarg kw ''l1rexp'' = Inr l1rexp"
    by (simp add: call_kwargs_def lift_bind) (erule lift_bind_event)
  from assms ok k1 k2 obtain d where k3: "kwarg kw ''dro'' = Inr d"
    by (simp add: call_kwargs_def lift_bind) (erule lift_bind_event)
  from assms ok k1 k2 k3 obtain u1 where k4: "kwarg kw ''units1'' = Inr u1"
    by (simp add: call_kwargs_def lift_bind) (erule lift_bind_event)
  from assms ok k1 k2 k3 k4 obtain u2 where k5: "kwarg kw ''units2'' = Inr u2"
    by (simp add: call_kwargs_def lift_bind) (erule lift_bind_event)
  from assms ok k1 k2 k3 k4 k5 obtain al where k6: "kwarg kw ''alpha'' = Inr al"
    by (simp add: call_kwargs_def lift_bind) (erule lift_bind_event)
  from call_kwargs_eq [OF ok k1 k2 k3 k4 k5 k6] k1 k2 k3 k4 k5 k6 show ?thesis
    by (simp add: kwarg_Inr)
qed

lemma run_folds_event:
  "ev \<in> set (snd (run_folds f folds)) \<Longrightarrow> \<exists>fd \<in> set folds. ev \<in> set (snd (f fd))"
proof (induction folds)
  case Nil
  then show ?case by simp
next
  case (Cons fd folds)
  from Cons.prems have "ev \<in> set (snd (f fd)) \<or> ev \<in> set (snd (run_folds f folds))"
    by (auto simp: snd_bind_res split: sum.splits)
  with Cons.IH show ?case by auto
qed

lemma run_folds_success:
  "fst (run_folds f folds) = Inr scores \<Longrightarrow>
     list_all2 (\<lambda>fd score. fst (f fd) = Inr score) folds scores"
proof (induction folds arbitrary: scores)
  case Nil
  then show ?case by simp
next
  case (Cons fd folds)
  from Cons.prems obtain score rest where "fst (f fd) = Inr score"
    and "fst (run_folds f folds) = Inr rest" and "scores = score # rest"
    by (auto simp: bind_res_Inr)
  with Cons.IH show ?case by simp
qed

lemma mean_Inr: "mean xs = Inr v \<longleftrightarrow> xs \<noteq> [] \<and> v = sum_list xs / real (length xs)"
  by (auto simp: mean_def)

lemma cv_score_success:
  assumes "fst (cv_score folds g kw) = Inr v"
  shows "\<exists>scores. scores \<noteq> [] \<and>
           list_all2 (\<lambda>(x_train, y_train, x_test, y_test) score.
                        fst (g x_train y_train x_test y_test kw) = Inr score) folds scores \<and>
           v = sum_list scores / real (length scores)"
proof -
  let ?f = "\<lambda>(x_train, y_train, x_test, y_test). g x_train y_train x_test y_test kw"
  from assms obtain scores where r: "fst (run_folds ?f folds) = Inr scores"
    and m: "mean scores = Inr v"
    unfolding cv_score_def bind_res_Inr by auto
  from run_folds_success [OF r]
  have "list_all2 (\<lambda>fd score. fst (?f fd) = Inr score) folds scores" .
  then have "list_all2 (\<lambda>(x_train, y_train, x_test, y_test) score.
                        fst (g x_train y_train x_test y_test kw) = Inr score) folds scores"
    by (rule list_all2_mono) (simp add: case_prod_beta)
  with m show ?thesis unfolding mean_Inr by blast
qed

lemma cv_score_event:
  assumes "ev \<in> set (snd (cv_score folds g kw))"
  shows "\<exists>(x_train, y_train, x_test, y_test) \<in> set folds.
           ev \<in> set (snd (g x_train y_train x_test y_test kw))"
proof -
  let ?f = "\<lambda>(x_train, y_train, x_test, y_test). g x_train y_train x_test y_test kw"
  from assms have "ev \<in> set (snd (run_folds ?f folds))"
    unfolding cv_score_def by (auto simp: snd_bind_res split: sum.splits)
  from run_folds_event [OF this] obtain fd where "fd \<in> set folds" "ev \<in> set (snd (?f fd))"
    by blast
  then show ?thesis by (auto simp: case_prod_beta)
qed

lemma search_event:
  "ev \<in> set (snd (search L solver f n h)) \<Longrightarrow>
     \<exists>h'. ev \<in> set (snd (f (propose L solver h')))"
  by (induction n arbitrary: h) (auto simp: Let_def snd_bind_res split: sum.splits)

lemma search_success:
  "fst (search L solver f n h) = Inr h' \<Longrightarrow>
     \<exists>new. h' = h @ new \<and> length new = n \<and>
       (\<forall>(kw, score) \<in> set new. (\<exists>h0. kw = propose L solver h0) \<and> fst (f kw) = Inr score)"
proof (induction n arbitrary: h)
  case 0
  then show ?case by simp
next
  case (Suc n)
  let ?kw = "propose L solver h"
  from Suc.prems obtain score where sc: "fst (f ?kw) = Inr score"
    and rest: "fst (search L solver f n (h @ [(?kw, score)])) = Inr h'"
    by (auto simp: Let_def bind_res_Inr)
  from Suc.IH [OF rest] obtain new where new: "h' = (h @ [(?kw, score)]) @ new" "length new = n"
    "\<forall>(kw, score) \<in> set new. (\<exists>h0. kw = propose L solver h0) \<and> fst (f kw) = Inr score"
    by blast
  have "h' = h @ ((?kw, score) # new)" using new(1) by simp
  moreover have "length ((?kw, score) # new) = Suc n" using new(2) by simp
  moreover have "\<forall>(kw, score) \<in> set ((?kw, score) # new).
                   (\<exists>h0. kw = propose L solver h0) \<and> fst (f kw) = Inr score"
    using new(3) sc by auto
  ultimately show ?case by blast
qed

lemma best_of_mem: "best_of b cs \<in> set (b # cs)"
  by (induction cs arbitrary: b) (auto split: if_splits)

lemma best_of_ge: "snd b \<le> snd (best_of b cs)"
proof (induction cs arbitrary: b)
  case Nil
  then show ?case by simp
next
  case (Cons c cs)
  have "snd b \<le> snd (if snd b < snd c then c else b)" by simp
  also have "\<dots> \<le> snd (best_of (if snd b < snd c then c else b) cs)" by (rule Cons.IH)
  finally show ?case by simp
qed

lemma best_of_max: "x \<in> set (b # cs) \<Longrightarrow> snd x \<le> snd (best_of b cs)"
proof (induction cs arbitrary: b)
  case Nil
  then show ?case by simp
next
  case (Cons c cs)
  let ?b' = "if snd b < snd c then c else b"
  from Cons.prems consider "x = b" | "x = c" | "x \<in> set cs" by auto
  then show ?case
  proof cases
    case 1
    then show ?thesis using best_of_ge [of b "c # cs"] by simp
  next
    case 2
    have "snd c \<le> snd ?b'" by simp
    also have "\<dots> \<le> snd (best_of ?b' cs)" by (rule best_of_ge)
    finally show ?thesis using 2 by simp
  next
    case 3
    then have "x \<in> set (?b' # cs)" by simp
    from Cons.IH [OF this] show ?thesis by simp
  qed
qed

subsection \<open>The optimizer's result\<close>

lemma bind_res_success:
  assumes "fst (bind_res m k) = Inr b"
  obtains a where "fst m = Inr a" and "fst (k a) = Inr b"
  using assms by (auto simp: bind_res_Inr)

lemma maximize_unfold:
  assumes "list_all (\<lambda>(name, lo, hi). lo \<le> hi) bx"
    and "suggest_solver L n name bx = Inr solver"
  shows "maximize L f n name bx =
           bind_res (search L solver f (nat n) []) (\<lambda>h.
             case h of
               [] \<Rightarrow> raise ValueError
             | c # cs \<Rightarrow>
                 (let b = best_of c cs
                  in ret (fst b, \<lparr>optimum = snd b, call_log = h\<rparr>, solver)))"
  using assms by (simp add: maximize_def lift_bind)

lemma maximize_started:
  assumes "fst (maximize L f n name bx) = Inr r \<or> snd (maximize L f n name bx) \<noteq> []"
  shows "list_all (\<lambda>(name, lo, hi). lo \<le> hi) bx \<and>
         (\<exists>solver. suggest_solver L n name bx = Inr solver)"
proof -
  have ok: "list_all (\<lambda>(name, lo, hi). lo \<le> hi) bx"
  proof (rule ccontr)
    assume "\<not> ?thesis"
    then have "maximize L f n name bx = raise AssertionError" by (simp add: maximize_def)
    with assms show False by simp
  qed
  moreover have "\<exists>solver. suggest_solver L n name bx = Inr solver"
  proof (cases "suggest_solver L n name bx")
    case (Inl e)
    with ok have "maximize L f n name bx = (Inl e, [])"
      by (simp add: maximize_def bind_res_def lift_def)
    with assms show ?thesis by simp
  next
    case (Inr solver)
    then show ?thesis by blast
  qed
  ultimately show ?thesis by blast
qed

lemma maximize_event:
  assumes "ev \<in> set (snd (maximize L f n name bx))"
  shows "\<exists>solver h0. list_all (\<lambda>(name, lo, hi). lo \<le> hi) bx \<and>
           suggest_solver L n name bx = Inr solver \<and>
           ev \<in> set (snd (f (propose L solver h0)))"
proof -
  from assms have "snd (maximize L f n name bx) \<noteq> []" by auto
  with maximize_started [of L f n name bx] obtain solver
    where ok: "list_all (\<lambda>(name, lo, hi). lo \<le> hi) bx"
      and s: "suggest_solver L n name bx = Inr solver" by blast
  from assms have "ev \<in> set (snd (search L solver f (nat n) []))"
    unfolding maximize_unfold [OF ok s]
    by (auto simp: snd_bind_res Let_def split: sum.splits list.splits)
  from search_event [OF this] ok s show ?thesis by blast
qed

lemma maximize_success:
  fixes L :: "('m, 's) libs"
  assumes "fst (maximize L f n name bx) = Inr (p, l, solver)"
  shows "list_all (\<lambda>(name, lo, hi). lo \<le> hi) bx \<and>
         suggest_solver L n name bx = Inr solver \<and>
         length (call_log l) = nat n \<and>
         (p, optimum l) \<in> set (call_log l) \<and>
         (\<forall>(kw, score) \<in> set (call_log l).
            score \<le> optimum l \<and> (\<exists>h0. kw = propose L solver h0) \<and> fst (f kw) = Inr score) \<and>
         snd (maximize L f n name bx) = snd (search L solver f (nat n) [])"
proof -
  from maximize_started [OF disjI1, OF assms]
  have ok: "list_all (\<lambda>(name, lo, hi). lo \<le> hi) bx"
    and ex: "\<exists>solver. suggest_solver L n name bx = Inr solver" by simp_all
  from ex obtain solver' where s: "suggest_solver L n name bx = Inr solver'" ..
  note unf = maximize_unfold [OF ok s, of f]
  obtain h where h: "fst (search L solver' f (nat n) []) = Inr h"
    and r: "fst (case h of
               [] \<Rightarrow> (raise ValueError :: ('m, pars \<times> searchlog \<times> 's) res)
             | c # cs \<Rightarrow>
                 (let b = best_of c cs
                  in ret (fst b, \<lparr>optimum = snd b, call_log = h\<rparr>, solver'))) = Inr (p, l, solver)"
    by (rule bind_res_success [OF assms [unfolded unf]]) (rule that)
  from r obtain c cs where cs: "h = c # cs" by (cases h) auto
  with r have eq: "p = fst (best_of c cs)" "optimum l = snd (best_of c cs)" "call_log l = h"
    "solver = solver'"
    by (auto simp: Let_def)
  from search_success [OF h] have len: "length h = nat n"
    and all: "\<forall>(kw, score) \<in> set h. (\<exists>h0. kw = propose L solver' h0) \<and> fst (f kw) = Inr score"
    by auto
  have mem: "(p, optimum l) \<in> set (call_log l)"
    using best_of_mem [of c cs] eq cs by simp
  have each: "\<forall>(kw, score) \<in> set (call_log l).
            score \<le> optimum l \<and> (\<exists>h0. kw = propose L solver h0) \<and> fst (f kw) = Inr score"
  proof (clarify, intro conjI)
    fix kw score
    assume in_log: "(kw, score) \<in> set (call_log l)"
    then have "(kw, score) \<in> set (c # cs)" using eq cs by simp
    from best_of_max [OF this] show "score \<le> optimum l" using eq by simp
    from in_log all eq have "(\<exists>h0. kw = propose L solver' h0) \<and> fst (f kw) = Inr score"
      by blast
    then show "\<exists>h0. kw = propose L solver h0" and "fst (f kw) = Inr score"
      using eq by simp_all
  qed
  have tr: "snd (maximize L f n name bx) = snd (search L solver f (nat n) [])"
    unfolding unf using h cs eq by (simp add: snd_bind_res Let_def)
  have len': "length (call_log l) = nat n" using len eq by simp
  have s': "suggest_solver L n name bx = Inr solver" using s eq by simp
  from ok s' len' mem each tr show ?thesis by (intro conjI)
qed

subsection \<open>The driver's result and trace\<close>

lemma cross_validated_Inr:
  "cross_validated L x y num_folds g = Inr f \<longleftrightarrow>
     (\<exists>folds. make_folds L x y num_folds = Inr folds \<and> f = cv_score folds g)"
  by (auto simp: cross_validated_def split: sum.splits)

lemma make_folds_Inr:
  "make_folds L x y num_folds = Inr folds \<Longrightarrow>
     length (rows x) = length (rows y) \<and> split_folds L x y num_folds = Inr folds \<and>
     int (length folds) = num_folds"
  by (auto simp: make_folds_def split: if_splits sum.splits)

lemma hypersearch_DL_unfold:
  fixes L :: "('m, 's) libs"
  assumes "make_folds L x_data y_data nfolds = Inr folds"
  shows "hypersearch_DL L x_data y_data method nfolds nevals lrexp_range l1rexp_range
           dro_range units1_range units2_range alpha_range batch_size num_epochs =
         bind_res (maximize L
                     (cv_score folds (\<lambda>x_train y_train x_test y_test.
                        call_kwargs (modelrun L batch_size num_epochs
                                       x_train y_train x_test y_test)))
                     nevals method
                     [(''lrexp'', lrexp_range), (''l1rexp'', l1rexp_range),
                      (''dro'', dro_range), (''units1'', units1_range),
                      (''units2'', units2_range), (''alpha'', alpha_range)])
           (\<lambda>(optimal_pars, searchlog, _).
              bind_res (print (''Optimal hyperparameters : '' @ str L optimal_pars)) (\<lambda>_.
              bind_res (print (''Cross-validated C after tuning: '' @
                               format_1_3f (optimum searchlog))) (\<lambda>_.
              ret (optimal_pars, searchlog))))"
  using assms by (simp add: hypersearch_DL_def cross_validated_def lift_bind)

lemma hypersearch_DL_no_folds:
  fixes L :: "('m, 's) libs"
  assumes "make_folds L x_data y_data nfolds = Inl e"
  shows "hypersearch_DL L x_data y_data method nfolds nevals lrexp_range l1rexp_range
           dro_range units1_range units2_range alpha_range batch_size num_epochs =
         (Inl e, [])"
  using assms by (simp add: hypersearch_DL_def cross_validated_def bind_res_def lift_def)

lemma print_tail:
  fixes optimal_pars :: pars and searchlog :: searchlog
  shows "bind_res (print l1 :: ('m, unit) res) (\<lambda>_.
           bind_res (print l2) (\<lambda>_. ret (optimal_pars, searchlog))) =
         (Inr (optimal_pars, searchlog), [Print l1, Print l2])"
  by (simp add: print_def call_def ret_def bind_res_def)

lemma hypersearch_DL_success:
  fixes L :: "('m, 's) libs"
  assumes "fst (hypersearch_DL L x_data y_data method nfolds nevals lrexp_range l1rexp_range
             dro_range units1_range units2_range alpha_range batch_size num_epochs) =
           Inr (optimal_pars, searchlog)"
  shows "\<exists>folds solver.
           make_folds L x_data y_data nfolds = Inr folds \<and>
           fst (maximize L
                  (cv_score folds (\<lambda>x_train y_train x_test y_test.
                     call_kwargs (modelrun L batch_size num_epochs
                                    x_train y_train x_test y_test)))
                  nevals method
                  [(''lrexp'', lrexp_range), (''l1rexp'', l1rexp_range),
                   (''dro'', dro_range), (''units1'', units1_range),
                   (''units2'', units2_range), (''alpha'', alpha_range)]) =
             Inr (optimal_pars, searchlog, solver) \<and>
           snd (hypersearch_DL L x_data y_data method nfolds nevals lrexp_range l1rexp_range
                  dro_range units1_range units2_range alpha_range batch_size num_epochs) =
             snd (maximize L
                    (cv_score folds (\<lambda>x_train y_train x_test y_test.
                       call_kwargs (modelrun L batch_size num_epochs
                                      x_train y_train x_test y_test)))
                    nevals method
                    [(''lrexp'', lrexp_range), (''l1rexp'', l1rexp_range),
                     (''dro'', dro_range), (''units1'', units1_range),
                     (''units2'', units2_range), (''alpha'', alpha_range)]) @
             [Print (''Optimal hyperparameters : '' @ str L optimal_pars),
              Print (''Cross-validated C after tuning: '' @
                     format_1_3f (optimum searchlog))]"
proof (cases "make_folds L x_data y_data nfolds")
  case (Inl e)
  from hypersearch_DL_no_folds [OF this] assms show ?thesis by simp
next
  case (Inr folds)
  note unf = hypersearch_DL_unfold [OF Inr]
  let ?mx = "maximize L
                  (cv_score folds (\<lambda>x_train y_train x_test y_test.
                     call_kwargs (modelrun L batch_size num_epochs
                                    x_train y_train x_test y_test)))
                  nevals method
                  [(''lrexp'', lrexp_range), (''l1rexp'', l1rexp_range),
                   (''dro'', dro_range), (''units1'', units1_range),
                   (''units2'', units2_range), (''alpha'', alpha_range)]"
  from assms [unfolded unf] obtain r where r: "fst ?mx = Inr r"
    by (cases "fst ?mx") (simp_all add: fst_bind_res)
  obtain p l solver where prs: "r = (p, l, solver)" by (cases r)
  from assms [unfolded unf] r prs have "p = optimal_pars" "l = searchlog"
    by (simp_all add: fst_bind_res print_tail)
  with r prs have mx: "fst ?mx = Inr (optimal_pars, searchlog, solver)" by simp
  have "snd (hypersearch_DL L x_data y_data method nfolds nevals lrexp_range l1rexp_range
                  dro_range units1_range units2_range alpha_range batch_size num_epochs) =
        snd ?mx @ [Print (''Optimal hyperparameters : '' @ str L optimal_pars),
              Print (''Cross-validated C after tuning: '' @
                     format_1_3f (optimum searchlog))]"
    unfolding unf using mx by (simp add: snd_bind_res print_tail)
  with Inr mx show ?thesis by blast
qed

lemma hypersearch_DL_event:
  fixes L :: "('m, 's) libs"
  assumes "ev \<in> set (snd (hypersearch_DL L x_data y_data method nfolds nevals lrexp_range
             l1rexp_range dro_range units1_range units2_range alpha_range
             batch_size num_epochs))"
  shows "(\<exists>line. ev = Print line) \<or>
         (\<exists>folds solver h0 x_train y_train x_test y_test lrexp l1rexp d u1 u2 al.
            make_folds L x_data y_data nfolds = Inr folds \<and>
            (x_train, y_train, x_test, y_test) \<in> set folds \<and>
            suggest_solver L nevals method
              [(''lrexp'', lrexp_range), (''l1rexp'', l1rexp_range),
               (''dro'', dro_range), (''units1'', units1_range),
               (''units2'', units2_range), (''alpha'', alpha_range)] = Inr solver \<and>
            map_of (propose L solver h0) ''lrexp'' = Some lrexp \<and>
            map_of (propose L solver h0) ''l1rexp'' = Some l1rexp \<and>
            map_of (propose L solver h0) ''dro'' = Some d \<and>
            map_of (propose L solver h0) ''units1'' = Some u1 \<and>
            map_of (propose L solver h0) ''units2'' = Some u2 \<and>
            map_of (propose L solver h0) ''alpha'' = Some al \<and>
            ev \<in> set (snd (modelrun L batch_size num_epochs x_train y_train x_test y_test
                              lrexp l1rexp d u1 u2 al)))"
proof (cases "make_folds L x_data y_data nfolds")
  case (Inl e)
  from hypersearch_DL_no_folds [OF this] assms show ?thesis by simp
next
  case (Inr folds)
  note unf = hypersearch_DL_unfold [OF Inr]
  let ?g = "\<lambda>x_train y_train x_test y_test.
              call_kwargs (modelrun L batch_size num_epochs x_train y_train x_test y_test)"
  let ?bx = "[(''lrexp'', lrexp_range), (''l1rexp'', l1rexp_range),
              (''dro'', dro_range), (''units1'', units1_range),
              (''units2'', units2_range), (''alpha'', alpha_range)]"
  let ?mx = "maximize L (cv_score folds ?g) nevals method ?bx"
  from assms [unfolded unf] consider (search) "ev \<in> set (snd ?mx)"
    | (tail) p l solver where "fst ?mx = Inr (p, l, solver)"
        "ev \<in> set [Print (''Optimal hyperparameters : '' @ str L p),
                    Print (''Cross-validated C after tuning: '' @ format_1_3f (optimum l))]"
    by (auto dest!: bind_res_event simp: print_tail)
  then show ?thesis
  proof cases
    case search
    from maximize_event [OF search] obtain solver h0
      where s: "suggest_solver L nevals method ?bx = Inr solver"
        and ev1: "ev \<in> set (snd (cv_score folds ?g (propose L solver h0)))" by blast
    from cv_score_event [OF ev1] obtain x_train y_train x_test y_test
      where fd: "(x_train, y_train, x_test, y_test) \<in> set folds"
        and ev2: "ev \<in> set (snd (call_kwargs (modelrun L batch_size num_epochs
                                    x_train y_train x_test y_test) (propose L solver h0)))"
      by blast
    from call_kwargs_event [OF ev2] ev2 Inr fd s show ?thesis by fastforce
  next
    case tail
    then show ?thesis by auto
  qed
qed

subsection \<open>The instance, evaluated\<close>

lemma demo_libs_simps:
  "DL_single_run demo_libs = (\<lambda>a. Inr (length (rows (xtr a))))"
  "predict demo_libs = (\<lambda>m x b. Inr [concat (rows x), map sum_list (rows x)])"
  "concordance_index demo_libs = harrell"
  "split_folds demo_libs = round_robin"
  "suggest_solver demo_libs = (\<lambda>n name bx.
         if name \<in> set [''grid search'', ''random'', ''sobol'', ''particle swarm'']
         then Inr bx else Inl (LibraryError name))"
  "propose demo_libs = (\<lambda>bx h.
         map (\<lambda>(name, lo, hi). (name, lo + (hi - lo) / real (Suc (length h)))) bx)"
  "str demo_libs = (\<lambda>kw. concat (map fst kw))"
  by (simp_all add: demo_libs_def)

lemma demo_make_folds: "make_folds demo_libs demo_x demo_y 2 = Inr demo_folds"
  by (simp add: make_folds_def demo_libs_simps demo_x_def demo_y_def demo_folds_def
      demo_x_odd_def demo_y_odd_def demo_x_even_def demo_y_even_def
      round_robin_def pick_def enumerate_eq_zip upt_rec)

lemmas demo_data =
  demo_folds_def demo_x_odd_def demo_y_odd_def demo_x_even_def demo_y_even_def
  demo_pars_def demo_point_def time_first_y_def

lemmas run_simps =
  hypersearch_DL_def cross_validated_def maximize_def bind_res_pair lift_def ret_def
  raise_def call_def print_def cv_score_def call_kwargs_def kwarg_def hyper_names_def
  modelrun_def item_def column_def mean_def demo_libs_simps harrell_def Let_def
  float_pow10_in_range

lemma demo_run_result:
  "fst (hypersearch_DL demo_libs demo_x demo_y ''random'' 2 1
          (- 6, - 9 / 2) (- 7, - 4) (1 / 10, 9 / 10) (75, 250) (5, 20) (3 / 10, 7 / 10)
          16 100) =
   Inr (demo_pars, \<lparr>optimum = 1 / 2, call_log = [(demo_pars, 1 / 2)]\<rparr>)"
  by (simp add: run_simps demo_make_folds demo_data)

lemma demo_modelrun_result:
  "fst (modelrun demo_libs 16 100 demo_x_odd demo_y_odd demo_x_even demo_y_even
          (- 5) (- 6) (1 / 2) 100 10 (1 / 2)) = Inr 1"
  by (simp add: run_simps demo_data)

lemma demo_modelrun_trace:
  "snd (modelrun demo_libs 16 100 demo_x_odd demo_y_odd demo_x_even demo_y_even
          (- 5) (- 6) (1 / 2) 100 10 (1 / 2)) =
   [Train \<lparr>xtr = demo_x_odd, ytr = demo_y_odd, units1 = 100, units2 = 10, dro = 1 / 2,
           lr = round_double (10 powr (- 5)), l1r = round_double (10 powr (- 6)),
           alpha = 1 / 2,
           batchsize = 16, numepochs = 100\<rparr>,
    Predict 2 demo_x_even 1,
    Concordance [2, 3] [- 3, - 2] [1, 1]]"
  by (simp add: run_simps demo_data)

lemma time_first_result:
  "fst (modelrun demo_libs 16 100 demo_x_odd time_first_y demo_x_even time_first_y
          (- 5) (- 6) (1 / 2) 100 10 (1 / 2)) = Inr 0"
  by (simp add: run_simps demo_data)

lemma time_first_trace:
  "snd (modelrun demo_libs 16 100 demo_x_odd time_first_y demo_x_even time_first_y
          (- 5) (- 6) (1 / 2) 100 10 (1 / 2)) =
   [Train \<lparr>xtr = demo_x_odd, ytr = time_first_y, units1 = 100, units2 = 10, dro = 1 / 2,
           lr = round_double (10 powr (- 5)), l1r = round_double (10 powr (- 6)),
           alpha = 1 / 2,
           batchsize = 16, numepochs = 100\<rparr>,
    Predict 2 demo_x_even 1,
    Concordance [1, 0] [- 3, - 2] [5, 7]]"
  by (simp add: run_simps demo_data)

lemma demo_run_trace:
  "snd (hypersearch_DL demo_libs demo_x demo_y ''random'' 2 1
          (- 6, - 9 / 2) (- 7, - 4) (1 / 10, 9 / 10) (75, 250) (5, 20) (3 / 10, 7 / 10)
          16 100) =
   [Train \<lparr>xtr = demo_x_odd, ytr = demo_y_odd, units1 = 250, units2 = 20, dro = 9 / 10,
           lr = round_double (10 powr (- 9 / 2)), l1r = round_double (10 powr (- 4)),
           alpha = 7 / 10,
           batchsize = 16, numepochs = 100\<rparr>,
    Predict 2 demo_x_even 1,
    Concordance [2, 3] [- 3, - 2] [1, 1],
    Train \<lparr>xtr = demo_x_even, ytr = demo_y_even, units1 = 250, units2 = 20, dro = 9 / 10,
           lr = round_double (10 powr (- 9 / 2)), l1r = round_double (10 powr (- 4)),
           alpha = 7 / 10,
           batchsize = 16, numepochs = 100\<rparr>,
    Predict 2 demo_x_odd 1,
    Concordance [5, 4] [- 4, - 1] [1, 1],
    Print ''Optimal hyperparameters : lrexpl1rexpdrounits1units2alpha'',
    Print ''Cross-validated C after tuning: 0.500'']"
  by (simp add: run_simps demo_make_folds demo_data format_half)

lemma sum_list_credit:
  fixes credit :: "'a \<Rightarrow> real"
  assumes "\<And>x. 0 \<le> credit x \<and> credit x \<le> 1"
  shows "0 \<le> sum_list (map credit xs) \<and> sum_list (map credit xs) \<le> real (length xs)"
proof (induction xs)
  case Nil
  then show ?case by simp
next
  case (Cons x xs)
  from assms [of x] Cons show ?case by simp
qed

lemma harrell_unit: "harrell ts scores status = Inr c \<Longrightarrow> 0 \<le> c \<and> c \<le> 1"
proof -
  assume a: "harrell ts scores status = Inr c"
  define obs where "obs = zip ts (zip scores status)"
  define pairs where
    "pairs = [(a, b). a \<leftarrow> obs, b \<leftarrow> obs, snd (snd a) \<noteq> 0 \<and> fst a < fst b]"
  define credit :: "(real \<times> real \<times> real) \<times> (real \<times> real \<times> real) \<Rightarrow> real" where
    "credit = (\<lambda>(a, b). if fst (snd a) < fst (snd b) then 1
                              else if fst (snd a) = fst (snd b) then 1 / 2 else 0)"
  from a have ne: "pairs \<noteq> []" and c: "c = sum_list (map credit pairs) / real (length pairs)"
    by (auto simp: harrell_def Let_def obs_def pairs_def credit_def split: if_splits)
  have "\<And>x. 0 \<le> credit x \<and> credit x \<le> 1" by (auto simp: credit_def)
  from sum_list_credit [of credit pairs, OF this]
  have b: "0 \<le> sum_list (map credit pairs)" "sum_list (map credit pairs) \<le> real (length pairs)"
    by simp_all
  from ne have pos: "0 < real (length pairs)" by simp
  from b pos show ?thesis unfolding c by (simp add: divide_le_eq)
qed

lemma demo_metric_in_unit_interval: "metric_in_unit_interval demo_libs"
  unfolding metric_in_unit_interval_def demo_libs_simps using harrell_unit by blast

lemma demo_propose_in_box:
  assumes "distinct (map fst bx)" and "list_all (\<lambda>(name, lo, hi). lo \<le> hi) bx"
  shows "in_box (propose demo_libs bx h) bx"
proof -
  define g :: "range \<Rightarrow> real" where "g = (\<lambda>(lo, hi). lo + (hi - lo) / real (Suc (length h)))"
  have kw: "propose demo_libs bx h = map (\<lambda>(name, r). (name, g r)) bx"
    by (simp add: demo_libs_simps g_def case_prod_beta)
  have "in_range (propose demo_libs bx h) name (lo, hi)" if mem: "(name, lo, hi) \<in> set bx"
    for name lo hi
  proof -
    from mem assms(1) have "map_of bx name = Some (lo, hi)" by simp
    then have v: "map_of (propose demo_libs bx h) name = Some (g (lo, hi))"
      unfolding kw by (simp add: map_of_map)
    from mem assms(2) have le: "lo \<le> hi" by (auto simp: list_all_iff)
    have "0 \<le> (hi - lo) / real (Suc (length h))" using le by simp
    moreover have "(hi - lo) / real (Suc (length h)) \<le> hi - lo"
    proof -
      have "(hi - lo) * 1 \<le> (hi - lo) * real (Suc (length h))"
        using le by (intro mult_left_mono) simp_all
      then show ?thesis by (simp add: divide_le_eq)
    qed
    ultimately have "lo \<le> g (lo, hi)" "g (lo, hi) \<le> hi" by (simp_all add: g_def)
    with v show ?thesis by (simp add: in_range_def)
  qed
  then show ?thesis by (auto simp: in_box_def list_all_iff)
qed

lemma demo_solver_in_box: "solver_in_box demo_libs"
  unfolding solver_in_box_def
proof (intro allI impI)
  fix n :: int and name :: string and bx :: box and solver :: box and h :: "(pars \<times> real) list"
  assume d: "distinct (map fst bx)" and ok: "list_all (\<lambda>(name, lo, hi). lo \<le> hi) bx"
    and s: "suggest_solver demo_libs n name bx = Inr solver"
  from s have "solver = bx" by (simp add: demo_libs_simps split: if_splits)
  with demo_propose_in_box [OF d ok] show "in_box (propose demo_libs solver h) bx" by simp
qed

lemma demo_degenerate_result:
  "fst (hypersearch_DL demo_libs demo_x demo_y ''random'' 2 1
          (- 5, - 5) (- 6, - 6) (1 / 2, 1 / 2) (100, 100) (10, 10) (1 / 2, 1 / 2)
          16 100) =
   Inr (demo_point, \<lparr>optimum = 1 / 2, call_log = [(demo_point, 1 / 2)]\<rparr>)"
  by (simp add: run_simps demo_make_folds demo_data)

subsection \<open>Bounds, scores and printed lines\<close>

lemma optimal_in_box:
  fixes L :: "('m, 's) libs"
  assumes "fst (hypersearch_DL L x_data y_data method nfolds nevals lrexp_range l1rexp_range
             dro_range units1_range units2_range alpha_range batch_size num_epochs) =
           Inr (optimal_pars, searchlog)"
    and "solver_in_box L"
  shows "in_box optimal_pars
           [(''lrexp'', lrexp_range), (''l1rexp'', l1rexp_range), (''dro'', dro_range),
            (''units1'', units1_range), (''units2'', units2_range),
            (''alpha'', alpha_range)]"
proof -
  let ?bx = "[(''lrexp'', lrexp_range), (''l1rexp'', l1rexp_range), (''dro'', dro_range),
              (''units1'', units1_range), (''units2'', units2_range),
              (''alpha'', alpha_range)]"
  from hypersearch_DL_success [OF assms(1)] obtain folds solver where
    mx: "fst (maximize L
                (cv_score folds (\<lambda>x_train y_train x_test y_test.
                   call_kwargs (modelrun L batch_size num_epochs
                                  x_train y_train x_test y_test)))
                nevals method ?bx) = Inr (optimal_pars, searchlog, solver)"
    by blast
  note m = maximize_success [OF mx]
  from m have ok: "list_all (\<lambda>(name, lo, hi). lo \<le> hi) ?bx"
    and s: "suggest_solver L nevals method ?bx = Inr solver"
    and mem: "(optimal_pars, optimum searchlog) \<in> set (call_log searchlog)"
    by simp_all
  from m mem obtain h0 where p: "optimal_pars = propose L solver h0" by blast
  have d: "distinct (map fst ?bx)" by simp
  from assms(2) d ok s have "in_box (propose L solver h0) ?bx"
    unfolding solver_in_box_def by blast
  with p show ?thesis by simp
qed

lemma sum_list_unit:
  fixes xs :: "real list"
  assumes "\<forall>s \<in> set xs. 0 \<le> s \<and> s \<le> 1"
  shows "0 \<le> sum_list xs \<and> sum_list xs \<le> real (length xs)"
  using assms by (induction xs) auto

lemma closure_score:
  fixes L :: "('m, 's) libs"
  assumes "fst (call_kwargs (modelrun L batch_size num_epochs x_train y_train x_test y_test)
                  kw) = Inr score"
  shows "\<exists>ts scores status. concordance_index L ts scores status = Inr score"
proof -
  from call_kwargs_success [OF assms] assms obtain lrexp l1rexp d u1 u2 al where
    "fst (modelrun L batch_size num_epochs x_train y_train x_test y_test
            lrexp l1rexp d u1 u2 al) = Inr score"
    by auto
  from modelrun_success [OF this] show ?thesis by blast
qed

lemma cv_score_unit:
  fixes L :: "('m, 's) libs"
  assumes "fst (cv_score folds (\<lambda>x_train y_train x_test y_test.
                   call_kwargs (modelrun L batch_size num_epochs
                                  x_train y_train x_test y_test)) kw) = Inr v"
    and "metric_in_unit_interval L"
  shows "0 \<le> v \<and> v \<le> 1"
proof -
  from cv_score_success [OF assms(1)] obtain scores where ne: "scores \<noteq> []"
    and all: "list_all2 (\<lambda>(x_train, y_train, x_test, y_test) score.
                 fst (call_kwargs (modelrun L batch_size num_epochs
                        x_train y_train x_test y_test) kw) = Inr score) folds scores"
    and v: "v = sum_list scores / real (length scores)"
    by blast
  have "\<forall>s \<in> set scores. 0 \<le> s \<and> s \<le> 1"
  proof
    fix s assume "s \<in> set scores"
    then obtain i where i: "i < length scores" "s = scores ! i"
      by (auto simp: in_set_conv_nth)
    with all have len: "i < length folds" by (simp add: list_all2_lengthD)
    obtain x_train y_train x_test y_test where f: "folds ! i = (x_train, y_train, x_test, y_test)"
      by (cases "folds ! i")
    from list_all2_nthD [OF all len] f i
    have "fst (call_kwargs (modelrun L batch_size num_epochs
                 x_train y_train x_test y_test) kw) = Inr s"
      by simp
    from closure_score [OF this] assms(2) show "0 \<le> s \<and> s \<le> 1"
      unfolding metric_in_unit_interval_def by blast
  qed
  from sum_list_unit [OF this] ne have "0 \<le> sum_list scores"
    "sum_list scores \<le> real (length scores)" "0 < real (length scores)"
    by simp_all
  then show ?thesis unfolding v by (simp add: divide_le_eq)
qed

lemma printed_append: "printed (xs @ ys) = printed xs @ printed ys"
  by (induction xs rule: printed.induct) simp_all

lemma printed_none:
  "(\<And>ev line. ev \<in> set evs \<Longrightarrow> ev \<noteq> Print line) \<Longrightarrow> printed evs = []"
proof (induction evs)
  case Nil
  then show ?case by simp
next
  case (Cons ev evs)
  from Cons.prems [of ev] have "\<And>line. ev \<noteq> Print line" by simp
  then have "printed (ev # evs) = printed evs" by (cases ev) auto
  with Cons show ?case by simp
qed

lemma modelrun_no_print:
  fixes L :: "('m, 's) libs"
  assumes "ev \<in> set (snd (modelrun L batch_size num_epochs x_train y_train x_test y_test
                              lrexp l1rexp d u1 u2 al))"
  shows "ev \<noteq> Print line"
  using modelrun_event [OF assms] by auto

lemma search_no_print:
  fixes L :: "('m, 's) libs"
  assumes "ev \<in> set (snd (maximize L
                (cv_score folds (\<lambda>x_train y_train x_test y_test.
                   call_kwargs (modelrun L batch_size num_epochs
                                  x_train y_train x_test y_test)))
                nevals method bx))"
  shows "ev \<noteq> Print line"
proof -
  from maximize_event [OF assms] obtain solver h0 where
    "ev \<in> set (snd (cv_score folds (\<lambda>x_train y_train x_test y_test.
                   call_kwargs (modelrun L batch_size num_epochs
                                  x_train y_train x_test y_test)) (propose L solver h0)))"
    by blast
  from cv_score_event [OF this] obtain x_train y_train x_test y_test where
    ev: "ev \<in> set (snd (call_kwargs (modelrun L batch_size num_epochs
                                  x_train y_train x_test y_test) (propose L solver h0)))"
    by blast
  from call_kwargs_event [OF ev] ev obtain lrexp l1rexp d u1 u2 al where
    "ev \<in> set (snd (modelrun L batch_size num_epochs x_train y_train x_test y_test
                       lrexp l1rexp d u1 u2 al))"
    by auto
  from modelrun_no_print [OF this] show ?thesis .
qed

lemma three_decimals_format: "three_decimals (format_1_3f v)"
  by (simp add: three_decimals_def format_1_3f_def Let_def is_digit_digit_char
      digits_nonempty)

lemma float_pow10_Inr:
  assumes "float_pow 10 x = Inr v"
  shows "v = round_double (10 powr x) \<and> 0 \<le> v \<and> x < 309 \<and>
         (- 323 \<le> x \<longrightarrow> 0 < v) \<and> (x \<le> - 324 \<longrightarrow> v = 0)"
proof -
  from assms have v: "v = round_double (10 powr x)"
    by (simp add: float_pow_def Let_def split: if_splits)
  have "0 \<le> v" unfolding v by (intro round_double_nonneg) simp
  moreover have "x < 309"
  proof (rule ccontr)
    assume "\<not> x < 309"
    then have "float_pow 10 x = Inl OverflowError" by (intro float_pow10_overflow) simp
    with assms show False by simp
  qed
  ultimately show ?thesis using v pow10_positive [of x] pow10_underflow [of x] by simp
qed

lemma float_pow10_cases:
  "float_pow 10 x = Inl OverflowError \<or> (\<exists>v. float_pow 10 x = Inr v)"
  by (simp add: float_pow_def Let_def)

lemma returned_optimum_unit:
  fixes L :: "('m, 's) libs"
  assumes "fst (hypersearch_DL L x_data y_data method nfolds nevals lrexp_range l1rexp_range
             dro_range units1_range units2_range alpha_range batch_size num_epochs) =
           Inr (optimal_pars, searchlog)"
    and "metric_in_unit_interval L"
  shows "0 \<le> optimum searchlog \<and> optimum searchlog \<le> 1"
proof -
  from hypersearch_DL_success [OF assms(1)] obtain folds solver where
    mx: "fst (maximize L
                (cv_score folds (\<lambda>x_train y_train x_test y_test.
                   call_kwargs (modelrun L batch_size num_epochs
                                  x_train y_train x_test y_test)))
                nevals method
                [(''lrexp'', lrexp_range), (''l1rexp'', l1rexp_range), (''dro'', dro_range),
                 (''units1'', units1_range), (''units2'', units2_range),
                 (''alpha'', alpha_range)]) = Inr (optimal_pars, searchlog, solver)"
    by blast
  note m = maximize_success [OF mx]
  from m have mem: "(optimal_pars, optimum searchlog) \<in> set (call_log searchlog)" by simp
  with m have "fst (cv_score folds (\<lambda>x_train y_train x_test y_test.
                   call_kwargs (modelrun L batch_size num_epochs
                                  x_train y_train x_test y_test)) optimal_pars) =
               Inr (optimum searchlog)"
    by blast
  from cv_score_unit [OF this assms(2)] show ?thesis .
qed

lemma files_written_append: "files_written (xs @ ys) = files_written xs @ files_written ys"
  by (induction xs rule: files_written.induct) simp_all

lemma files_written_none:
  "(\<And>ev path content. ev \<in> set evs \<Longrightarrow> ev \<noteq> FileWrite path content) \<Longrightarrow>
     files_written evs = []"
proof (induction evs)
  case Nil
  then show ?case by simp
next
  case (Cons ev evs)
  from Cons.prems [of ev] have "\<And>path content. ev \<noteq> FileWrite path content" by simp
  then have "files_written (ev # evs) = files_written evs" by (cases ev) auto
  with Cons show ?case by simp
qed

lemma search_no_file:
  fixes L :: "('m, 's) libs"
  assumes "ev \<in> set (snd (maximize L
                (cv_score folds (\<lambda>x_train y_train x_test y_test.
                   call_kwargs (modelrun L batch_size num_epochs
                                  x_train y_train x_test y_test)))
                nevals method bx))"
  shows "ev \<noteq> FileWrite path content"
proof -
  from maximize_event [OF assms] obtain solver h0 where
    "ev \<in> set (snd (cv_score folds (\<lambda>x_train y_train x_test y_test.
                   call_kwargs (modelrun L batch_size num_epochs
                                  x_train y_train x_test y_test)) (propose L solver h0)))"
    by blast
  from cv_score_event [OF this] obtain x_train y_train x_test y_test where
    ev: "ev \<in> set (snd (call_kwargs (modelrun L batch_size num_epochs
                                  x_train y_train x_test y_test) (propose L solver h0)))"
    by blast
  from call_kwargs_event [OF ev] ev obtain lrexp l1rexp d u1 u2 al where
    "ev \<in> set (snd (modelrun L batch_size num_epochs x_train y_train x_test y_test
                       lrexp l1rexp d u1 u2 al))"
    by auto
  from modelrun_event [OF this] show ?thesis by auto
qed

lemma demo_underflow_trace:
  "snd (hypersearch_DL demo_libs demo_x demo_y ''random'' 2 1
          (- 401, - 400) (- 7, - 6) (1 / 10, 1 / 2) (75, 100) (5, 10) (3 / 10, 1 / 2)
          16 100) =
   [Train \<lparr>xtr = demo_x_odd, ytr = demo_y_odd, units1 = 100, units2 = 10, dro = 1 / 2,
           lr = 0, l1r = round_double (10 powr (- 6)), alpha = 1 / 2,
           batchsize = 16, numepochs = 100\<rparr>,
    Predict 2 demo_x_even 1,
    Concordance [2, 3] [- 3, - 2] [1, 1],
    Train \<lparr>xtr = demo_x_even, ytr = demo_y_even, units1 = 100, units2 = 10, dro = 1 / 2,
           lr = 0, l1r = round_double (10 powr (- 6)), alpha = 1 / 2,
           batchsize = 16, numepochs = 100\<rparr>,
    Predict 2 demo_x_odd 1,
    Concordance [5, 4] [- 4, - 1] [1, 1],
    Print ''Optimal hyperparameters : lrexpl1rexpdrounits1units2alpha'',
    Print ''Cross-validated C after tuning: 0.500'']"
  by (simp add: run_simps demo_make_folds demo_data format_half pow10_underflow)

section \<open>The claims\<close>

text \<open>
  C3, as amended: in every evaluation of \<open>modelrun\<close>, a call of the concordance metric
  has column 1 of the held-out outcome array (its second column) as first argument,
  the negated element 1 of the model's prediction output as second argument and
  column 0 (the first column) as third argument; and an evaluation that returns has
  made such a call and returns its value. The outcome rows are therefore read as
  (censoring status, survival time).
\<close>

theorem modelrun_concordance_call:
  fixes L :: "('m, 's) libs"
  shows "(\<forall>ts scores status.
            Concordance ts scores status \<in>
              set (snd (modelrun L batch_size num_epochs x_train y_train x_test y_test
                          lrexp l1rexp d u1 u2 al)) \<longrightarrow>
            column 1 y_test = Inr ts \<and> column 0 y_test = Inr status \<and>
            (\<exists>cv_log outs.
               predict L cv_log x_test 1 = Inr outs \<and> 1 < length outs \<and>
               scores = map uminus (outs ! 1))) \<and>
         (\<forall>c. fst (modelrun L batch_size num_epochs x_train y_train x_test y_test
                      lrexp l1rexp d u1 u2 al) = Inr c \<longrightarrow>
            (\<exists>ts scores status.
               Concordance ts scores status \<in>
                 set (snd (modelrun L batch_size num_epochs x_train y_train x_test y_test
                             lrexp l1rexp d u1 u2 al)) \<and>
               concordance_index L ts scores status = Inr c))"
proof (intro conjI allI impI)
  fix ts scores status
  assume "Concordance ts scores status \<in>
            set (snd (modelrun L batch_size num_epochs x_train y_train x_test y_test
                        lrexp l1rexp d u1 u2 al))"
  from modelrun_event [OF this]
  obtain cv_log outs where "predict L cv_log x_test 1 = Inr outs" "1 < length outs"
    "column 1 y_test = Inr ts" "column 0 y_test = Inr status"
    "scores = map uminus (outs ! 1)"
    by auto
  then show "column 1 y_test = Inr ts" and "column 0 y_test = Inr status"
    and "\<exists>cv_log outs. predict L cv_log x_test 1 = Inr outs \<and> 1 < length outs \<and>
           scores = map uminus (outs ! 1)"
    by blast+
next
  fix c
  assume "fst (modelrun L batch_size num_epochs x_train y_train x_test y_test
                 lrexp l1rexp d u1 u2 al) = Inr c"
  from modelrun_success [OF this]
  obtain a cv_log outs ts status where
    "concordance_index L ts (map uminus (outs ! 1)) status = Inr c"
    "snd (modelrun L batch_size num_epochs x_train y_train x_test y_test
            lrexp l1rexp d u1 u2 al) =
       [Train a, Predict cv_log x_test 1, Concordance ts (map uminus (outs ! 1)) status]"
    by blast
  then show "\<exists>ts scores status.
               Concordance ts scores status \<in>
                 set (snd (modelrun L batch_size num_epochs x_train y_train x_test y_test
                             lrexp l1rexp d u1 u2 al)) \<and>
               concordance_index L ts scores status = Inr c"
    by fastforce
qed

theorem modelrun_concordance_call_witness:
  "Concordance [2, 3] [- 3, - 2] [1, 1] \<in>
     set (snd (modelrun demo_libs 16 100 demo_x_odd demo_y_odd demo_x_even demo_y_even
                 (- 5) (- 6) (1 / 2) 100 10 (1 / 2))) \<and>
   fst (modelrun demo_libs 16 100 demo_x_odd demo_y_odd demo_x_even demo_y_even
          (- 5) (- 6) (1 / 2) 100 10 (1 / 2)) = Inr 1 \<and>
   column 1 demo_y_even = Inr [2, 3] \<and> column 0 demo_y_even = Inr [1, 1] \<and>
   (\<exists>ts scores status.
      Concordance ts scores status \<in>
        set (snd (modelrun demo_libs 16 100 demo_x_odd demo_y_odd demo_x_even demo_y_even
                    (- 5) (- 6) (1 / 2) 100 10 (1 / 2))) \<and>
      concordance_index demo_libs ts scores status = Inr 1)"
proof -
  note inst = modelrun_concordance_call [of demo_libs 16 100 demo_x_odd demo_y_odd
      demo_x_even demo_y_even "- 5" "- 6" "1 / 2" 100 10 "1 / 2"]
  have mem: "Concordance [2, 3] [- 3, - 2] [1, 1] \<in>
     set (snd (modelrun demo_libs 16 100 demo_x_odd demo_y_odd demo_x_even demo_y_even
                 (- 5) (- 6) (1 / 2) 100 10 (1 / 2)))"
    by (simp add: demo_modelrun_trace)
  from inst [THEN conjunct1, rule_format, OF mem]
  have cols: "column 1 demo_y_even = Inr [2, 3]" "column 0 demo_y_even = Inr [1, 1]"
    by simp_all
  from inst [THEN conjunct2, rule_format, OF demo_modelrun_result]
  have call: "\<exists>ts scores status.
      Concordance ts scores status \<in>
        set (snd (modelrun demo_libs 16 100 demo_x_odd demo_y_odd demo_x_even demo_y_even
                    (- 5) (- 6) (1 / 2) 100 10 (1 / 2))) \<and>
      concordance_index demo_libs ts scores status = Inr 1" .
  from mem demo_modelrun_result cols call show ?thesis by (intro conjI)
qed

text \<open>
  C3 as stated puts the survival time in the first column and the indicator in the
  second. On an outcome array laid out so, the evaluation returns, yet the metric is
  not called with the times \<open>[5, 7]\<close> first and the indicators \<open>[1, 0]\<close> third: it is
  called with the two columns the other way round.
\<close>

theorem modelrun_time_first_counterexample:
  "column 0 time_first_y = Inr [5, 7] \<and> column 1 time_first_y = Inr [1, 0] \<and>
   fst (modelrun demo_libs 16 100 demo_x_odd time_first_y demo_x_even time_first_y
          (- 5) (- 6) (1 / 2) 100 10 (1 / 2)) = Inr 0 \<and>
   Concordance [5, 7] [- 3, - 2] [1, 0] \<notin>
     set (snd (modelrun demo_libs 16 100 demo_x_odd time_first_y demo_x_even time_first_y
                 (- 5) (- 6) (1 / 2) 100 10 (1 / 2))) \<and>
   Concordance [1, 0] [- 3, - 2] [5, 7] \<in>
     set (snd (modelrun demo_libs 16 100 demo_x_odd time_first_y demo_x_even time_first_y
                 (- 5) (- 6) (1 / 2) 100 10 (1 / 2)))"
proof -
  have "column 0 time_first_y = Inr [5, 7]" and "column 1 time_first_y = Inr [1, 0]"
    by (simp_all add: column_def time_first_y_def)
  then show ?thesis by (simp add: time_first_result time_first_trace)
qed

text \<open>
  C1: when \<open>hypersearch_DL\<close> returns, and the solver explores the box it was given, the
  returned dict gives each of the six names a value within the range supplied for it.
\<close>

theorem hypersearch_DL_within_bounds:
  fixes L :: "('m, 's) libs"
  assumes "fst (hypersearch_DL L x_data y_data method nfolds nevals lrexp_range l1rexp_range
             dro_range units1_range units2_range alpha_range batch_size num_epochs) =
           Inr (optimal_pars, searchlog)"
    and "solver_in_box L"
  shows "in_range optimal_pars ''lrexp'' lrexp_range \<and>
         in_range optimal_pars ''l1rexp'' l1rexp_range \<and>
         in_range optimal_pars ''dro'' dro_range \<and>
         in_range optimal_pars ''units1'' units1_range \<and>
         in_range optimal_pars ''units2'' units2_range \<and>
         in_range optimal_pars ''alpha'' alpha_range"
  using optimal_in_box [OF assms] by (simp add: in_box_def)

theorem hypersearch_DL_within_bounds_witness:
  "fst (hypersearch_DL demo_libs demo_x demo_y ''random'' 2 1
          (- 6, - 9 / 2) (- 7, - 4) (1 / 10, 9 / 10) (75, 250) (5, 20) (3 / 10, 7 / 10)
          16 100) =
     Inr (demo_pars, \<lparr>optimum = 1 / 2, call_log = [(demo_pars, 1 / 2)]\<rparr>) \<and>
   solver_in_box demo_libs \<and>
   in_range demo_pars ''lrexp'' (- 6, - 9 / 2) \<and>
   in_range demo_pars ''l1rexp'' (- 7, - 4) \<and>
   in_range demo_pars ''dro'' (1 / 10, 9 / 10) \<and>
   in_range demo_pars ''units1'' (75, 250) \<and>
   in_range demo_pars ''units2'' (5, 20) \<and>
   in_range demo_pars ''alpha'' (3 / 10, 7 / 10)"
  using hypersearch_DL_within_bounds [OF demo_run_result demo_solver_in_box]
    demo_run_result demo_solver_in_box
  by (intro conjI) simp_all

text \<open>
  C5: with every range degenerate (low equal to high), a call that returns, under a
  solver that explores the box it was given and a metric with values in \<open>[0, 1]\<close>,
  returns exactly the degenerate value for each of the six names, and an optimum score
  that lies between 0 and 1 and so is a finite float. This holds for any number of
  folds and evaluations and any method, so for two folds, one evaluation and the
  random method.
\<close>

theorem hypersearch_DL_degenerate:
  fixes L :: "('m, 's) libs"
  assumes "fst (hypersearch_DL L x_data y_data method nfolds nevals lrexp_range l1rexp_range
             dro_range units1_range units2_range alpha_range batch_size num_epochs) =
           Inr (optimal_pars, searchlog)"
    and "solver_in_box L" and "metric_in_unit_interval L"
    and "snd lrexp_range = fst lrexp_range" and "snd l1rexp_range = fst l1rexp_range"
    and "snd dro_range = fst dro_range" and "snd units1_range = fst units1_range"
    and "snd units2_range = fst units2_range" and "snd alpha_range = fst alpha_range"
  shows "map_of optimal_pars ''lrexp'' = Some (fst lrexp_range) \<and>
         map_of optimal_pars ''l1rexp'' = Some (fst l1rexp_range) \<and>
         map_of optimal_pars ''dro'' = Some (fst dro_range) \<and>
         map_of optimal_pars ''units1'' = Some (fst units1_range) \<and>
         map_of optimal_pars ''units2'' = Some (fst units2_range) \<and>
         map_of optimal_pars ''alpha'' = Some (fst alpha_range) \<and>
         0 \<le> optimum searchlog \<and> optimum searchlog \<le> 1 \<and>
         finite_float (optimum searchlog)"
proof -
  have point: "map_of kw name = Some (fst r)" if "in_range kw name r" "snd r = fst r"
    for kw name and r :: range
    using that by (auto simp: in_range_def split: option.splits)
  from optimal_in_box [OF assms(1,2)]
  have "in_range optimal_pars ''lrexp'' lrexp_range"
    "in_range optimal_pars ''l1rexp'' l1rexp_range"
    "in_range optimal_pars ''dro'' dro_range"
    "in_range optimal_pars ''units1'' units1_range"
    "in_range optimal_pars ''units2'' units2_range"
    "in_range optimal_pars ''alpha'' alpha_range"
    by (simp_all add: in_box_def)
  with assms(4-9) have vals:
    "map_of optimal_pars ''lrexp'' = Some (fst lrexp_range)"
    "map_of optimal_pars ''l1rexp'' = Some (fst l1rexp_range)"
    "map_of optimal_pars ''dro'' = Some (fst dro_range)"
    "map_of optimal_pars ''units1'' = Some (fst units1_range)"
    "map_of optimal_pars ''units2'' = Some (fst units2_range)"
    "map_of optimal_pars ''alpha'' = Some (fst alpha_range)"
    by (simp_all add: point)
  from returned_optimum_unit [OF assms(1,3)]
  have bounds: "0 \<le> optimum searchlog" "optimum searchlog \<le> 1" by simp_all
  then have "\<bar>optimum searchlog\<bar> \<le> 1" by simp
  also have "(1::real) < 2 ^ 1024" by simp
  finally have "finite_float (optimum searchlog)" by (simp add: finite_float_def)
  with vals bounds show ?thesis by (intro conjI)
qed

theorem hypersearch_DL_degenerate_witness:
  "fst (hypersearch_DL demo_libs demo_x demo_y ''random'' 2 1
          (- 5, - 5) (- 6, - 6) (1 / 2, 1 / 2) (100, 100) (10, 10) (1 / 2, 1 / 2)
          16 100) =
     Inr (demo_point, \<lparr>optimum = 1 / 2, call_log = [(demo_point, 1 / 2)]\<rparr>) \<and>
   solver_in_box demo_libs \<and> metric_in_unit_interval demo_libs \<and>
   map_of demo_point ''lrexp'' = Some (- 5) \<and>
   map_of demo_point ''l1rexp'' = Some (- 6) \<and>
   map_of demo_point ''dro'' = Some (1 / 2) \<and>
   map_of demo_point ''units1'' = Some 100 \<and>
   map_of demo_point ''units2'' = Some 10 \<and>
   map_of demo_point ''alpha'' = Some (1 / 2) \<and>
   finite_float (1 / 2)"
  using hypersearch_DL_degenerate [OF demo_degenerate_result demo_solver_in_box
      demo_metric_in_unit_interval]
    demo_degenerate_result demo_solver_in_box demo_metric_in_unit_interval
  by (intro conjI) simp_all

text \<open>
  C2: when \<open>hypersearch_DL\<close> returns, and the concordance metric returns values in
  \<open>[0, 1]\<close>, the optimum recorded in the returned search log lies in \<open>[0, 1]\<close>.
\<close>

theorem optimum_in_unit_interval:
  fixes L :: "('m, 's) libs"
  assumes "fst (hypersearch_DL L x_data y_data method nfolds nevals lrexp_range l1rexp_range
             dro_range units1_range units2_range alpha_range batch_size num_epochs) =
           Inr (optimal_pars, searchlog)"
    and "metric_in_unit_interval L"
  shows "0 \<le> optimum searchlog \<and> optimum searchlog \<le> 1"
proof -
  from hypersearch_DL_success [OF assms(1)] obtain folds solver where
    mx: "fst (maximize L
                (cv_score folds (\<lambda>x_train y_train x_test y_test.
                   call_kwargs (modelrun L batch_size num_epochs
                                  x_train y_train x_test y_test)))
                nevals method
                [(''lrexp'', lrexp_range), (''l1rexp'', l1rexp_range), (''dro'', dro_range),
                 (''units1'', units1_range), (''units2'', units2_range),
                 (''alpha'', alpha_range)]) = Inr (optimal_pars, searchlog, solver)"
    by blast
  note m = maximize_success [OF mx]
  from m have mem: "(optimal_pars, optimum searchlog) \<in> set (call_log searchlog)" by simp
  with m have "fst (cv_score folds (\<lambda>x_train y_train x_test y_test.
                   call_kwargs (modelrun L batch_size num_epochs
                                  x_train y_train x_test y_test)) optimal_pars) =
               Inr (optimum searchlog)"
    by blast
  from cv_score_unit [OF this assms(2)] show ?thesis .
qed

theorem optimum_in_unit_interval_witness:
  "fst (hypersearch_DL demo_libs demo_x demo_y ''random'' 2 1
          (- 6, - 9 / 2) (- 7, - 4) (1 / 10, 9 / 10) (75, 250) (5, 20) (3 / 10, 7 / 10)
          16 100) =
     Inr (demo_pars, \<lparr>optimum = 1 / 2, call_log = [(demo_pars, 1 / 2)]\<rparr>) \<and>
   metric_in_unit_interval demo_libs \<and>
   0 \<le> optimum \<lparr>optimum = 1 / 2, call_log = [(demo_pars, 1 / 2)]\<rparr> \<and>
   optimum \<lparr>optimum = 1 / 2, call_log = [(demo_pars, 1 / 2)]\<rparr> \<le> 1"
  using optimum_in_unit_interval [OF demo_run_result demo_metric_in_unit_interval]
    demo_run_result demo_metric_in_unit_interval
  by (intro conjI) simp_all

text \<open>
  C6: a call whose feature and outcome arrays differ in their number of rows raises;
  the error is the one cross-validation raises, before anything is trained or printed.
\<close>

theorem mismatched_sample_counts_raise:
  fixes L :: "('m, 's) libs"
  assumes "length (rows x_data) \<noteq> length (rows y_data)"
  shows "hypersearch_DL L x_data y_data method nfolds nevals lrexp_range l1rexp_range
           dro_range units1_range units2_range alpha_range batch_size num_epochs =
         (Inl ValueError, [])"
proof -
  from assms have "make_folds L x_data y_data nfolds = Inl ValueError"
    by (simp add: make_folds_def)
  from hypersearch_DL_no_folds [OF this] show ?thesis .
qed

theorem mismatched_sample_counts_raise_witness:
  "length (rows demo_x) \<noteq> length (rows demo_y_short) \<and>
   hypersearch_DL demo_libs demo_x demo_y_short ''random'' 2 1
     (- 6, - 9 / 2) (- 7, - 4) (1 / 10, 9 / 10) (75, 250) (5, 20) (3 / 10, 7 / 10)
     16 100 = (Inl ValueError, [])"
proof -
  have ne: "length (rows demo_x) \<noteq> length (rows demo_y_short)"
    by (simp add: demo_x_def demo_y_short_def)
  from mismatched_sample_counts_raise [OF ne] ne show ?thesis by simp
qed

text \<open>
  C9, as amended: every call of the training routine in a run of \<open>hypersearch_DL\<close> gets
  as learning rate and L1 strength the floats \<^verbatim>\<open>10**lrexp\<close> and \<^verbatim>\<open>10**l1rexp\<close> for the
  exponents of a candidate the solver proposed. Either is non-negative, strictly
  positive when its exponent is at least \<open>-323\<close>, and zero when its exponent is at most
  \<open>-324\<close>; the exponents of a training call are below 309. The call gets the batch size
  and epoch count of the run unchanged. An evaluation of the closure with an exponent
  of 309 or more raises OverflowError before the training routine is called.
\<close>

theorem training_arguments:
  fixes L :: "('m, 's) libs"
  shows "(Train a \<in> set (snd (hypersearch_DL L x_data y_data method nfolds nevals
             lrexp_range l1rexp_range dro_range units1_range units2_range alpha_range
             batch_size num_epochs)) \<longrightarrow>
          (\<exists>solver h0 lrexp l1rexp.
             suggest_solver L nevals method
               [(''lrexp'', lrexp_range), (''l1rexp'', l1rexp_range),
                (''dro'', dro_range), (''units1'', units1_range),
                (''units2'', units2_range), (''alpha'', alpha_range)] = Inr solver \<and>
             map_of (propose L solver h0) ''lrexp'' = Some lrexp \<and>
             map_of (propose L solver h0) ''l1rexp'' = Some l1rexp \<and>
             float_pow 10 lrexp = Inr (lr a) \<and> float_pow 10 l1rexp = Inr (l1r a) \<and>
             (- 323 \<le> lrexp \<longrightarrow> 0 < lr a) \<and> (lrexp \<le> - 324 \<longrightarrow> lr a = 0) \<and>
             (- 323 \<le> l1rexp \<longrightarrow> 0 < l1r a) \<and> (l1rexp \<le> - 324 \<longrightarrow> l1r a = 0) \<and>
             lrexp < 309 \<and> l1rexp < 309) \<and>
          0 \<le> lr a \<and> 0 \<le> l1r a \<and>
          batchsize a = batch_size \<and> numepochs a = num_epochs) \<and>
         (309 \<le> lrexp' \<or> 309 \<le> l1rexp' \<longrightarrow>
          modelrun L batch_size num_epochs x_train y_train x_test y_test
            lrexp' l1rexp' d u1 u2 al = (Inl OverflowError, []))"
proof (intro conjI impI)
  assume tr: "Train a \<in> set (snd (hypersearch_DL L x_data y_data method nfolds nevals
             lrexp_range l1rexp_range dro_range units1_range units2_range alpha_range
             batch_size num_epochs))"
  from hypersearch_DL_event [OF tr]
  obtain solver h0 x_train y_train x_test y_test lrexp l1rexp d u1 u2 al where
    s: "suggest_solver L nevals method
          [(''lrexp'', lrexp_range), (''l1rexp'', l1rexp_range),
           (''dro'', dro_range), (''units1'', units1_range),
           (''units2'', units2_range), (''alpha'', alpha_range)] = Inr solver"
    and k: "map_of (propose L solver h0) ''lrexp'' = Some lrexp"
      "map_of (propose L solver h0) ''l1rexp'' = Some l1rexp"
    and ev: "Train a \<in> set (snd (modelrun L batch_size num_epochs x_train y_train
                                   x_test y_test lrexp l1rexp d u1 u2 al))"
    by auto
  from modelrun_event [OF ev] obtain lr' l1r' where
    p: "float_pow 10 lrexp = Inr lr'" "float_pow 10 l1rexp = Inr l1r'"
    and a: "a = \<lparr>xtr = x_train, ytr = y_train, units1 = u1, units2 = u2, dro = d,
                 lr = lr', l1r = l1r', alpha = al,
                 batchsize = batch_size, numepochs = num_epochs\<rparr>"
    by auto
  from a have f: "lr a = lr'" "l1r a = l1r'"
    "batchsize a = batch_size" "numepochs a = num_epochs"
    by simp_all
  from p f have q: "float_pow 10 lrexp = Inr (lr a)" "float_pow 10 l1rexp = Inr (l1r a)"
    by simp_all
  note b1 = float_pow10_Inr [OF q(1)] and b2 = float_pow10_Inr [OF q(2)]
  from s k q b1 b2
  show "\<exists>solver h0 lrexp l1rexp.
             suggest_solver L nevals method
               [(''lrexp'', lrexp_range), (''l1rexp'', l1rexp_range),
                (''dro'', dro_range), (''units1'', units1_range),
                (''units2'', units2_range), (''alpha'', alpha_range)] = Inr solver \<and>
             map_of (propose L solver h0) ''lrexp'' = Some lrexp \<and>
             map_of (propose L solver h0) ''l1rexp'' = Some l1rexp \<and>
             float_pow 10 lrexp = Inr (lr a) \<and> float_pow 10 l1rexp = Inr (l1r a) \<and>
             (- 323 \<le> lrexp \<longrightarrow> 0 < lr a) \<and> (lrexp \<le> - 324 \<longrightarrow> lr a = 0) \<and>
             (- 323 \<le> l1rexp \<longrightarrow> 0 < l1r a) \<and> (l1rexp \<le> - 324 \<longrightarrow> l1r a = 0) \<and>
             lrexp < 309 \<and> l1rexp < 309"
    by blast
  from b1 show "0 \<le> lr a" by simp
  from b2 show "0 \<le> l1r a" by simp
  from f show "batchsize a = batch_size" and "numepochs a = num_epochs" by simp_all
next
  assume big: "309 \<le> lrexp' \<or> 309 \<le> l1rexp'"
  have "float_pow 10 lrexp' = Inl OverflowError \<or>
        (\<exists>v. float_pow 10 lrexp' = Inr v) \<and> float_pow 10 l1rexp' = Inl OverflowError"
    using big float_pow10_cases [of lrexp'] float_pow10_overflow [of lrexp']
      float_pow10_overflow [of l1rexp']
    by blast
  from modelrun_overflow [OF this]
  show "modelrun L batch_size num_epochs x_train y_train x_test y_test
            lrexp' l1rexp' d u1 u2 al = (Inl OverflowError, [])" .
qed

theorem training_arguments_witness:
  "Train \<lparr>xtr = demo_x_odd, ytr = demo_y_odd, units1 = 250, units2 = 20, dro = 9 / 10,
          lr = round_double (10 powr (- 9 / 2)), l1r = round_double (10 powr (- 4)),
          alpha = 7 / 10, batchsize = 16, numepochs = 100\<rparr> \<in>
     set (snd (hypersearch_DL demo_libs demo_x demo_y ''random'' 2 1
                 (- 6, - 9 / 2) (- 7, - 4) (1 / 10, 9 / 10) (75, 250) (5, 20)
                 (3 / 10, 7 / 10) 16 100)) \<and>
   0 \<le> round_double (10 powr (- 9 / 2)) \<and> 0 \<le> round_double (10 powr (- 4)) \<and>
   (309::real) \<le> 400 \<and>
   modelrun demo_libs 16 100 demo_x_odd demo_y_odd demo_x_even demo_y_even
     400 (- 6) (1 / 2) 100 10 (1 / 2) = (Inl OverflowError, [])"
proof -
  let ?a = "\<lparr>xtr = demo_x_odd, ytr = demo_y_odd, units1 = 250, units2 = 20, dro = 9 / 10,
          lr = round_double (10 powr (- 9 / 2)), l1r = round_double (10 powr (- 4)),
          alpha = 7 / 10, batchsize = 16, numepochs = 100\<rparr>"
  note inst = training_arguments [of ?a demo_libs demo_x demo_y "''random''" 2 1
      "(- 6, - 9 / 2)" "(- 7, - 4)" "(1 / 10, 9 / 10)" "(75, 250)" "(5, 20)" "(3 / 10, 7 / 10)"
      16 100 400 "- 6" demo_x_odd demo_y_odd demo_x_even demo_y_even "1 / 2" 100 10 "1 / 2"]
  have mem: "Train ?a \<in>
     set (snd (hypersearch_DL demo_libs demo_x demo_y ''random'' 2 1
                 (- 6, - 9 / 2) (- 7, - 4) (1 / 10, 9 / 10) (75, 250) (5, 20)
                 (3 / 10, 7 / 10) 16 100))"
    unfolding demo_run_trace by simp
  from inst [THEN conjunct1, rule_format, OF mem]
  have nonneg: "0 \<le> lr ?a" "0 \<le> l1r ?a" by blast+
  have big: "(309::real) \<le> 400 \<or> (309::real) \<le> - 6" by simp
  from inst [THEN conjunct2, rule_format, OF big]
  have ov: "modelrun demo_libs 16 100 demo_x_odd demo_y_odd demo_x_even demo_y_even
     400 (- 6) (1 / 2) 100 10 (1 / 2) = (Inl OverflowError, [])" .
  from nonneg have "0 \<le> round_double (10 powr (- 9 / 2))" "0 \<le> round_double (10 powr (- 4))"
    by simp_all
  with mem ov show ?thesis by simp
qed

text \<open>
  C9 as stated has the learning rate strictly positive for any exponent. With the
  range \<open>[-401, -400]\<close> for the exponent, the run trains with the learning rate
  \<^verbatim>\<open>10**-400.0\<close>, which is the float zero.
\<close>

theorem learning_rate_underflow_counterexample:
  "float_pow 10 (- 400) = Inr 0 \<and>
   Train \<lparr>xtr = demo_x_odd, ytr = demo_y_odd, units1 = 100, units2 = 10, dro = 1 / 2,
          lr = 0, l1r = round_double (10 powr (- 6)), alpha = 1 / 2,
          batchsize = 16, numepochs = 100\<rparr> \<in>
     set (snd (hypersearch_DL demo_libs demo_x demo_y ''random'' 2 1
                 (- 401, - 400) (- 7, - 6) (1 / 10, 1 / 2) (75, 100) (5, 10)
                 (3 / 10, 1 / 2) 16 100))"
proof -
  have "float_pow 10 (- 400) = Inr 0"
    by (simp add: float_pow10_in_range pow10_underflow)
  then show ?thesis unfolding demo_underflow_trace by simp
qed

text \<open>
  C10: \<open>hypersearch_DL\<close> returns the pair of the first two of the three values of
  \<open>maximize\<close>, and returns exactly when the folds can be made and \<open>maximize\<close> returns;
  the score of an evaluation of the closure is the metric's value on the negated
  element 1 (the second element) of the model's prediction output.
\<close>

theorem hypersearch_DL_returns_pair:
  fixes L :: "('m, 's) libs"
  shows "(fst (hypersearch_DL L x_data y_data method nfolds nevals lrexp_range l1rexp_range
                 dro_range units1_range units2_range alpha_range batch_size num_epochs) =
            Inr (optimal_pars, searchlog) \<longleftrightarrow>
          (\<exists>folds solver.
             make_folds L x_data y_data nfolds = Inr folds \<and>
             fst (maximize L
                    (cv_score folds (\<lambda>x_train y_train x_test y_test.
                       call_kwargs (modelrun L batch_size num_epochs
                                      x_train y_train x_test y_test)))
                    nevals method
                    [(''lrexp'', lrexp_range), (''l1rexp'', l1rexp_range),
                     (''dro'', dro_range), (''units1'', units1_range),
                     (''units2'', units2_range), (''alpha'', alpha_range)]) =
               Inr (optimal_pars, searchlog, solver))) \<and>
         (\<forall>c. fst (modelrun L batch_size num_epochs x_train y_train x_test y_test
                      lrexp l1rexp d u1 u2 al) = Inr c \<longrightarrow>
            (\<exists>cv_log outs ts status.
               predict L cv_log x_test 1 = Inr outs \<and> 1 < length outs \<and>
               concordance_index L ts (map uminus (outs ! 1)) status = Inr c))"
proof (intro conjI iffI allI impI)
  assume "fst (hypersearch_DL L x_data y_data method nfolds nevals lrexp_range l1rexp_range
                 dro_range units1_range units2_range alpha_range batch_size num_epochs) =
            Inr (optimal_pars, searchlog)"
  from hypersearch_DL_success [OF this]
  show "\<exists>folds solver.
             make_folds L x_data y_data nfolds = Inr folds \<and>
             fst (maximize L
                    (cv_score folds (\<lambda>x_train y_train x_test y_test.
                       call_kwargs (modelrun L batch_size num_epochs
                                      x_train y_train x_test y_test)))
                    nevals method
                    [(''lrexp'', lrexp_range), (''l1rexp'', l1rexp_range),
                     (''dro'', dro_range), (''units1'', units1_range),
                     (''units2'', units2_range), (''alpha'', alpha_range)]) =
               Inr (optimal_pars, searchlog, solver)"
    by blast
next
  assume "\<exists>folds solver.
             make_folds L x_data y_data nfolds = Inr folds \<and>
             fst (maximize L
                    (cv_score folds (\<lambda>x_train y_train x_test y_test.
                       call_kwargs (modelrun L batch_size num_epochs
                                      x_train y_train x_test y_test)))
                    nevals method
                    [(''lrexp'', lrexp_range), (''l1rexp'', l1rexp_range),
                     (''dro'', dro_range), (''units1'', units1_range),
                     (''units2'', units2_range), (''alpha'', alpha_range)]) =
               Inr (optimal_pars, searchlog, solver)"
  then obtain folds solver where f: "make_folds L x_data y_data nfolds = Inr folds"
    and mx: "fst (maximize L
                    (cv_score folds (\<lambda>x_train y_train x_test y_test.
                       call_kwargs (modelrun L batch_size num_epochs
                                      x_train y_train x_test y_test)))
                    nevals method
                    [(''lrexp'', lrexp_range), (''l1rexp'', l1rexp_range),
                     (''dro'', dro_range), (''units1'', units1_range),
                     (''units2'', units2_range), (''alpha'', alpha_range)]) =
               Inr (optimal_pars, searchlog, solver)"
    by blast
  show "fst (hypersearch_DL L x_data y_data method nfolds nevals lrexp_range l1rexp_range
                 dro_range units1_range units2_range alpha_range batch_size num_epochs) =
            Inr (optimal_pars, searchlog)"
    unfolding hypersearch_DL_unfold [OF f] using mx
    by (simp add: fst_bind_res print_tail)
next
  fix c
  assume "fst (modelrun L batch_size num_epochs x_train y_train x_test y_test
                      lrexp l1rexp d u1 u2 al) = Inr c"
  from modelrun_success [OF this]
  show "\<exists>cv_log outs ts status.
               predict L cv_log x_test 1 = Inr outs \<and> 1 < length outs \<and>
               concordance_index L ts (map uminus (outs ! 1)) status = Inr c"
    by blast
qed

theorem hypersearch_DL_returns_pair_witness:
  "fst (hypersearch_DL demo_libs demo_x demo_y ''random'' 2 1
          (- 6, - 9 / 2) (- 7, - 4) (1 / 10, 9 / 10) (75, 250) (5, 20) (3 / 10, 7 / 10)
          16 100) =
     Inr (demo_pars, \<lparr>optimum = 1 / 2, call_log = [(demo_pars, 1 / 2)]\<rparr>) \<and>
   (\<exists>folds solver.
      make_folds demo_libs demo_x demo_y 2 = Inr folds \<and>
      fst (maximize demo_libs
             (cv_score folds (\<lambda>x_train y_train x_test y_test.
                call_kwargs (modelrun demo_libs 16 100 x_train y_train x_test y_test)))
             1 ''random''
             [(''lrexp'', (- 6, - 9 / 2)), (''l1rexp'', (- 7, - 4)),
              (''dro'', (1 / 10, 9 / 10)), (''units1'', (75, 250)),
              (''units2'', (5, 20)), (''alpha'', (3 / 10, 7 / 10))]) =
        Inr (demo_pars, \<lparr>optimum = 1 / 2, call_log = [(demo_pars, 1 / 2)]\<rparr>, solver)) \<and>
   fst (modelrun demo_libs 16 100 demo_x_odd demo_y_odd demo_x_even demo_y_even
          (- 5) (- 6) (1 / 2) 100 10 (1 / 2)) = Inr 1 \<and>
   (\<exists>cv_log outs ts status.
      predict demo_libs cv_log demo_x_even 1 = Inr outs \<and> 1 < length outs \<and>
      concordance_index demo_libs ts (map uminus (outs ! 1)) status = Inr 1)"
proof -
  note inst = hypersearch_DL_returns_pair [of demo_libs demo_x demo_y "''random''" 2 1
      "(- 6, - 9 / 2)" "(- 7, - 4)" "(1 / 10, 9 / 10)" "(75, 250)" "(5, 20)" "(3 / 10, 7 / 10)"
      16 100 demo_pars "\<lparr>optimum = 1 / 2, call_log = [(demo_pars, 1 / 2)]\<rparr>"
      demo_x_odd demo_y_odd demo_x_even demo_y_even "- 5" "- 6" "1 / 2" 100 10 "1 / 2"]
  from inst [THEN conjunct1, THEN iffD1, OF demo_run_result]
  have a: "\<exists>folds solver.
      make_folds demo_libs demo_x demo_y 2 = Inr folds \<and>
      fst (maximize demo_libs
             (cv_score folds (\<lambda>x_train y_train x_test y_test.
                call_kwargs (modelrun demo_libs 16 100 x_train y_train x_test y_test)))
             1 ''random''
             [(''lrexp'', (- 6, - 9 / 2)), (''l1rexp'', (- 7, - 4)),
              (''dro'', (1 / 10, 9 / 10)), (''units1'', (75, 250)),
              (''units2'', (5, 20)), (''alpha'', (3 / 10, 7 / 10))]) =
        Inr (demo_pars, \<lparr>optimum = 1 / 2, call_log = [(demo_pars, 1 / 2)]\<rparr>, solver)" .
  from inst [THEN conjunct2, rule_format, OF demo_modelrun_result]
  have b: "\<exists>cv_log outs ts status.
      predict demo_libs cv_log demo_x_even 1 = Inr outs \<and> 1 < length outs \<and>
      concordance_index demo_libs ts (map uminus (outs ! 1)) status = Inr 1" .
  from demo_run_result a demo_modelrun_result b show ?thesis by (intro conjI)
qed

text \<open>
  C7: a call of \<open>hypersearch_DL\<close> that returns has printed exactly two lines, after the
  search: the selected hyperparameters, then the optimum score. The score is printed
  with three decimals, and the number printed, read back, is within half a thousandth
  of the float of the optimum. The trace of the call holds no write to a file.
\<close>

theorem hypersearch_DL_prints_two_lines:
  fixes L :: "('m, 's) libs"
  assumes "fst (hypersearch_DL L x_data y_data method nfolds nevals lrexp_range l1rexp_range
             dro_range units1_range units2_range alpha_range batch_size num_epochs) =
           Inr (optimal_pars, searchlog)"
  shows "printed (snd (hypersearch_DL L x_data y_data method nfolds nevals lrexp_range
                         l1rexp_range dro_range units1_range units2_range alpha_range
                         batch_size num_epochs)) =
           [''Optimal hyperparameters : '' @ str L optimal_pars,
            ''Cross-validated C after tuning: '' @ format_1_3f (optimum searchlog)] \<and>
         three_decimals (format_1_3f (optimum searchlog)) \<and>
         \<bar>read_decimal (format_1_3f (optimum searchlog)) - round_double (optimum searchlog)\<bar>
            \<le> 1 / 2000 \<and>
         files_written (snd (hypersearch_DL L x_data y_data method nfolds nevals lrexp_range
                               l1rexp_range dro_range units1_range units2_range alpha_range
                               batch_size num_epochs)) = []"
proof -
  from hypersearch_DL_success [OF assms] obtain folds where
    tr: "snd (hypersearch_DL L x_data y_data method nfolds nevals lrexp_range l1rexp_range
                  dro_range units1_range units2_range alpha_range batch_size num_epochs) =
             snd (maximize L
                    (cv_score folds (\<lambda>x_train y_train x_test y_test.
                       call_kwargs (modelrun L batch_size num_epochs
                                      x_train y_train x_test y_test)))
                    nevals method
                    [(''lrexp'', lrexp_range), (''l1rexp'', l1rexp_range),
                     (''dro'', dro_range), (''units1'', units1_range),
                     (''units2'', units2_range), (''alpha'', alpha_range)]) @
             [Print (''Optimal hyperparameters : '' @ str L optimal_pars),
              Print (''Cross-validated C after tuning: '' @
                     format_1_3f (optimum searchlog))]"
    by blast
  have p: "printed (snd (maximize L
                    (cv_score folds (\<lambda>x_train y_train x_test y_test.
                       call_kwargs (modelrun L batch_size num_epochs
                                      x_train y_train x_test y_test)))
                    nevals method
                    [(''lrexp'', lrexp_range), (''l1rexp'', l1rexp_range),
                     (''dro'', dro_range), (''units1'', units1_range),
                     (''units2'', units2_range), (''alpha'', alpha_range)])) = []"
    by (rule printed_none) (rule search_no_print)
  have w: "files_written (snd (maximize L
                    (cv_score folds (\<lambda>x_train y_train x_test y_test.
                       call_kwargs (modelrun L batch_size num_epochs
                                      x_train y_train x_test y_test)))
                    nevals method
                    [(''lrexp'', lrexp_range), (''l1rexp'', l1rexp_range),
                     (''dro'', dro_range), (''units1'', units1_range),
                     (''units2'', units2_range), (''alpha'', alpha_range)])) = []"
    by (rule files_written_none) (rule search_no_file)
  have lines: "printed (snd (hypersearch_DL L x_data y_data method nfolds nevals lrexp_range
                         l1rexp_range dro_range units1_range units2_range alpha_range
                         batch_size num_epochs)) =
           [''Optimal hyperparameters : '' @ str L optimal_pars,
            ''Cross-validated C after tuning: '' @ format_1_3f (optimum searchlog)]"
    unfolding tr using p by (simp add: printed_append)
  have files: "files_written (snd (hypersearch_DL L x_data y_data method nfolds nevals
                               lrexp_range l1rexp_range dro_range units1_range units2_range
                               alpha_range batch_size num_epochs)) = []"
    unfolding tr using w by (simp add: files_written_append)
  from lines three_decimals_format read_decimal_format files show ?thesis by (intro conjI)
qed

theorem hypersearch_DL_prints_two_lines_witness:
  "fst (hypersearch_DL demo_libs demo_x demo_y ''random'' 2 1
          (- 6, - 9 / 2) (- 7, - 4) (1 / 10, 9 / 10) (75, 250) (5, 20) (3 / 10, 7 / 10)
          16 100) =
     Inr (demo_pars, \<lparr>optimum = 1 / 2, call_log = [(demo_pars, 1 / 2)]\<rparr>) \<and>
   printed (snd (hypersearch_DL demo_libs demo_x demo_y ''random'' 2 1
          (- 6, - 9 / 2) (- 7, - 4) (1 / 10, 9 / 10) (75, 250) (5, 20) (3 / 10, 7 / 10)
          16 100)) =
     [''Optimal hyperparameters : lrexpl1rexpdrounits1units2alpha'',
      ''Cross-validated C after tuning: 0.500''] \<and>
   three_decimals ''0.500'' \<and>
   \<bar>read_decimal ''0.500'' - 1 / 2\<bar> \<le> 1 / 2000 \<and>
   files_written (snd (hypersearch_DL demo_libs demo_x demo_y ''random'' 2 1
          (- 6, - 9 / 2) (- 7, - 4) (1 / 10, 9 / 10) (75, 250) (5, 20) (3 / 10, 7 / 10)
          16 100)) = []"
proof -
  note fmt = format_half
  have st: "str demo_libs demo_pars = ''lrexpl1rexpdrounits1units2alpha''"
    by (simp add: demo_libs_simps demo_pars_def)
  from hypersearch_DL_prints_two_lines [OF demo_run_result] demo_run_result
  show ?thesis by (simp add: fmt st round_double_half)
qed

text \<open>
  C4: an evaluation of the closure that returns has trained one model on the training
  fold, asked that model for its predictions on the held-out features, scored them
  against the held-out outcomes with the concordance metric, and returns that score
  (these three calls are its whole trace). A run that returns has evaluated every
  candidate of its log on each of the \<open>nfolds\<close> folds, logged the average of the fold
  scores, and returns a logged candidate whose average no other logged one exceeds.
\<close>

theorem cross_validated_search:
  fixes L :: "('m, 's) libs"
  shows "(\<forall>c. fst (modelrun L batch_size num_epochs x_train y_train x_test y_test
                      lrexp l1rexp d u1 u2 al) = Inr c \<longrightarrow>
            (\<exists>a cv_log outs ts status.
               xtr a = x_train \<and> ytr a = y_train \<and>
               DL_single_run L a = Inr cv_log \<and>
               predict L cv_log x_test 1 = Inr outs \<and>
               column 1 y_test = Inr ts \<and> column 0 y_test = Inr status \<and>
               concordance_index L ts (map uminus (outs ! 1)) status = Inr c \<and>
               snd (modelrun L batch_size num_epochs x_train y_train x_test y_test
                      lrexp l1rexp d u1 u2 al) =
                 [Train a, Predict cv_log x_test 1,
                  Concordance ts (map uminus (outs ! 1)) status])) \<and>
         (\<forall>optimal_pars searchlog.
            fst (hypersearch_DL L x_data y_data method nfolds nevals lrexp_range
                   l1rexp_range dro_range units1_range units2_range alpha_range
                   batch_size num_epochs) = Inr (optimal_pars, searchlog) \<longrightarrow>
            (\<exists>folds.
               make_folds L x_data y_data nfolds = Inr folds \<and>
               int (length folds) = nfolds \<and>
               (optimal_pars, optimum searchlog) \<in> set (call_log searchlog) \<and>
               (\<forall>(kw, score) \<in> set (call_log searchlog).
                  score \<le> optimum searchlog \<and>
                  (\<exists>scores.
                     list_all2 (\<lambda>(x_train, y_train, x_test, y_test) s.
                        fst (call_kwargs (modelrun L batch_size num_epochs
                               x_train y_train x_test y_test) kw) = Inr s) folds scores \<and>
                     score = sum_list scores / real (length folds)))))"
proof (intro conjI allI impI)
  fix c
  assume "fst (modelrun L batch_size num_epochs x_train y_train x_test y_test
                 lrexp l1rexp d u1 u2 al) = Inr c"
  from modelrun_success [OF this]
  obtain lr' l1r' a cv_log outs ts status where
    "a = \<lparr>xtr = x_train, ytr = y_train, units1 = u1, units2 = u2, dro = d,
          lr = lr', l1r = l1r', alpha = al,
          batchsize = batch_size, numepochs = num_epochs\<rparr>"
    "DL_single_run L a = Inr cv_log" "predict L cv_log x_test 1 = Inr outs"
    "column 1 y_test = Inr ts" "column 0 y_test = Inr status"
    "concordance_index L ts (map uminus (outs ! 1)) status = Inr c"
    "snd (modelrun L batch_size num_epochs x_train y_train x_test y_test
            lrexp l1rexp d u1 u2 al) =
       [Train a, Predict cv_log x_test 1, Concordance ts (map uminus (outs ! 1)) status]"
    by blast
  moreover from this(1) have "xtr a = x_train" "ytr a = y_train" by simp_all
  ultimately show "\<exists>a cv_log outs ts status.
               xtr a = x_train \<and> ytr a = y_train \<and>
               DL_single_run L a = Inr cv_log \<and>
               predict L cv_log x_test 1 = Inr outs \<and>
               column 1 y_test = Inr ts \<and> column 0 y_test = Inr status \<and>
               concordance_index L ts (map uminus (outs ! 1)) status = Inr c \<and>
               snd (modelrun L batch_size num_epochs x_train y_train x_test y_test
                      lrexp l1rexp d u1 u2 al) =
                 [Train a, Predict cv_log x_test 1,
                  Concordance ts (map uminus (outs ! 1)) status]"
    by blast
next
  fix optimal_pars searchlog
  assume ok: "fst (hypersearch_DL L x_data y_data method nfolds nevals lrexp_range
                   l1rexp_range dro_range units1_range units2_range alpha_range
                   batch_size num_epochs) = Inr (optimal_pars, searchlog)"
  let ?g = "\<lambda>x_train y_train x_test y_test.
              call_kwargs (modelrun L batch_size num_epochs x_train y_train x_test y_test)"
  from hypersearch_DL_success [OF ok] obtain folds solver where
    f: "make_folds L x_data y_data nfolds = Inr folds"
    and mx: "fst (maximize L (cv_score folds ?g) nevals method
                [(''lrexp'', lrexp_range), (''l1rexp'', l1rexp_range), (''dro'', dro_range),
                 (''units1'', units1_range), (''units2'', units2_range),
                 (''alpha'', alpha_range)]) = Inr (optimal_pars, searchlog, solver)"
    by blast
  from make_folds_Inr [OF f] have len: "int (length folds) = nfolds" by simp
  note m = maximize_success [OF mx]
  from m have mem: "(optimal_pars, optimum searchlog) \<in> set (call_log searchlog)" by simp
  have each: "\<forall>(kw, score) \<in> set (call_log searchlog).
                  score \<le> optimum searchlog \<and>
                  (\<exists>scores.
                     list_all2 (\<lambda>(x_train, y_train, x_test, y_test) s.
                        fst (?g x_train y_train x_test y_test kw) = Inr s) folds scores \<and>
                     score = sum_list scores / real (length folds))"
  proof (clarify, intro conjI)
    fix kw score
    assume in_log: "(kw, score) \<in> set (call_log searchlog)"
    with m show "score \<le> optimum searchlog" by blast
    from in_log m have "fst (cv_score folds ?g kw) = Inr score" by blast
    from cv_score_success [OF this] obtain scores where
      all: "list_all2 (\<lambda>(x_train, y_train, x_test, y_test) s.
              fst (?g x_train y_train x_test y_test kw) = Inr s) folds scores"
      and v: "score = sum_list scores / real (length scores)"
      by blast
    from all have "length scores = length folds" by (simp add: list_all2_lengthD)
    with all v show "\<exists>scores.
                     list_all2 (\<lambda>(x_train, y_train, x_test, y_test) s.
                        fst (?g x_train y_train x_test y_test kw) = Inr s) folds scores \<and>
                     score = sum_list scores / real (length folds)"
      by auto
  qed
  from f len mem each show "\<exists>folds.
               make_folds L x_data y_data nfolds = Inr folds \<and>
               int (length folds) = nfolds \<and>
               (optimal_pars, optimum searchlog) \<in> set (call_log searchlog) \<and>
               (\<forall>(kw, score) \<in> set (call_log searchlog).
                  score \<le> optimum searchlog \<and>
                  (\<exists>scores.
                     list_all2 (\<lambda>(x_train, y_train, x_test, y_test) s.
                        fst (call_kwargs (modelrun L batch_size num_epochs
                               x_train y_train x_test y_test) kw) = Inr s) folds scores \<and>
                     score = sum_list scores / real (length folds)))"
    by blast
qed

theorem cross_validated_search_witness:
  "fst (modelrun demo_libs 16 100 demo_x_odd demo_y_odd demo_x_even demo_y_even
          (- 5) (- 6) (1 / 2) 100 10 (1 / 2)) = Inr 1 \<and>
   (\<exists>a cv_log outs ts status.
      xtr a = demo_x_odd \<and> ytr a = demo_y_odd \<and>
      DL_single_run demo_libs a = Inr cv_log \<and>
      predict demo_libs cv_log demo_x_even 1 = Inr outs \<and>
      column 1 demo_y_even = Inr ts \<and> column 0 demo_y_even = Inr status \<and>
      concordance_index demo_libs ts (map uminus (outs ! 1)) status = Inr 1 \<and>
      snd (modelrun demo_libs 16 100 demo_x_odd demo_y_odd demo_x_even demo_y_even
             (- 5) (- 6) (1 / 2) 100 10 (1 / 2)) =
        [Train a, Predict cv_log demo_x_even 1,
         Concordance ts (map uminus (outs ! 1)) status]) \<and>
   fst (hypersearch_DL demo_libs demo_x demo_y ''random'' 2 1
          (- 6, - 9 / 2) (- 7, - 4) (1 / 10, 9 / 10) (75, 250) (5, 20) (3 / 10, 7 / 10)
          16 100) =
     Inr (demo_pars, \<lparr>optimum = 1 / 2, call_log = [(demo_pars, 1 / 2)]\<rparr>) \<and>
   (\<exists>folds.
      make_folds demo_libs demo_x demo_y 2 = Inr folds \<and>
      int (length folds) = 2 \<and>
      (\<exists>scores.
         list_all2 (\<lambda>(x_train, y_train, x_test, y_test) s.
            fst (call_kwargs (modelrun demo_libs 16 100
                   x_train y_train x_test y_test) demo_pars) = Inr s) folds scores \<and>
         1 / 2 = sum_list scores / real (length folds)))"
proof -
  note inst = cross_validated_search [of demo_libs 16 100 demo_x_odd demo_y_odd
      demo_x_even demo_y_even "- 5" "- 6" "1 / 2" 100 10 "1 / 2"
      demo_x demo_y "''random''" 2 1
      "(- 6, - 9 / 2)" "(- 7, - 4)" "(1 / 10, 9 / 10)" "(75, 250)" "(5, 20)" "(3 / 10, 7 / 10)"]
  from inst [THEN conjunct1, rule_format, OF demo_modelrun_result]
  have a: "\<exists>a cv_log outs ts status.
      xtr a = demo_x_odd \<and> ytr a = demo_y_odd \<and>
      DL_single_run demo_libs a = Inr cv_log \<and>
      predict demo_libs cv_log demo_x_even 1 = Inr outs \<and>
      column 1 demo_y_even = Inr ts \<and> column 0 demo_y_even = Inr status \<and>
      concordance_index demo_libs ts (map uminus (outs ! 1)) status = Inr 1 \<and>
      snd (modelrun demo_libs 16 100 demo_x_odd demo_y_odd demo_x_even demo_y_even
             (- 5) (- 6) (1 / 2) 100 10 (1 / 2)) =
        [Train a, Predict cv_log demo_x_even 1,
         Concordance ts (map uminus (outs ! 1)) status]" .
  let ?log = "\<lparr>optimum = 1 / 2, call_log = [(demo_pars, 1 / 2)]\<rparr>"
  from inst [THEN conjunct2, rule_format, OF demo_run_result]
  obtain folds where f: "make_folds demo_libs demo_x demo_y 2 = Inr folds"
    "int (length folds) = 2"
    and each: "\<forall>(kw, score) \<in> set (call_log ?log).
                  score \<le> optimum ?log \<and>
                  (\<exists>scores.
                     list_all2 (\<lambda>(x_train, y_train, x_test, y_test) s.
                        fst (call_kwargs (modelrun demo_libs 16 100
                               x_train y_train x_test y_test) kw) = Inr s) folds scores \<and>
                     score = sum_list scores / real (length folds))"
    by blast
  have "(demo_pars, 1 / 2) \<in> set (call_log ?log)" by simp
  from bspec [OF each this] have "\<exists>scores.
         list_all2 (\<lambda>(x_train, y_train, x_test, y_test) s.
            fst (call_kwargs (modelrun demo_libs 16 100
                   x_train y_train x_test y_test) demo_pars) = Inr s) folds scores \<and>
         1 / 2 = sum_list scores / real (length folds)"
    by (simp only: prod.case)
  with f have b: "\<exists>folds.
      make_folds demo_libs demo_x demo_y 2 = Inr folds \<and>
      int (length folds) = 2 \<and>
      (\<exists>scores.
         list_all2 (\<lambda>(x_train, y_train, x_test, y_test) s.
            fst (call_kwargs (modelrun demo_libs 16 100
                   x_train y_train x_test y_test) demo_pars) = Inr s) folds scores \<and>
         1 / 2 = sum_list scores / real (length folds))"
    by blast
  from demo_modelrun_result a demo_run_result b show ?thesis by (intro conjI)
qed

end
